theory Spec2Isabelle
  imports Complex_Main "HOL-Library.Log_Nat"
begin

section \<open>Numbers\<close>

text \<open>
  A JavaScript number is an IEEE 754 double: a finite value, which is a rational, one of
  the two infinities, or \<open>NaN\<close>. The sign of a zero is not kept: the controllers
  divide only by 60, by a total they have compared with zero, and by a difference, and
  print no zero with its sign.
\<close>

datatype number = Num rat | PInf | NInf | NaN

text \<open>
  Rounding to the nearest double, a tie going to the even significand. \<open>rhe\<close> rounds
  a rational to the nearest integer, a tie going to the even one. \<open>elog x\<close> is the
  exponent of the binade of \<open>x\<close>, the greatest \<open>e\<close> with \<open>2 powi e \<le> \<bar>x\<bar>\<close>; the
  doubles of that binade are the multiples of \<open>2 powi (e - 52)\<close>, and below
  \<open>2 powi (- 1022)\<close> the multiples of \<open>2 powi (- 1074)\<close>. \<open>rnd x\<close> is the nearest
  such multiple, and \<open>fl x\<close> is the double it denotes, an infinity from
  \<open>2 ^ 1024\<close> on.
\<close>

definition rhe :: "rat \<Rightarrow> int" where
  "rhe q =
     (let n = \<lfloor>q\<rfloor>
      in if q - of_int n < 1 / 2 then n
         else if 1 / 2 < q - of_int n then n + 1
         else if even n then n else n + 1)"

definition elog :: "rat \<Rightarrow> int" where
  "elog x =
     (case quotient_of \<bar>x\<bar> of
        (p, q) \<Rightarrow> let k = bitlen p - bitlen q in if 2 powi k \<le> \<bar>x\<bar> then k else k - 1)"

definition ulp_exp :: "rat \<Rightarrow> int" where
  "ulp_exp x = (if \<bar>x\<bar> < 2 powi (- 1022) then - 1074 else elog x - 52)"

definition rnd :: "rat \<Rightarrow> rat" where
  "rnd x = of_int (rhe (x / 2 powi ulp_exp x)) * 2 powi ulp_exp x"

definition fl :: "rat \<Rightarrow> number" where
  "fl x =
     (if 2 ^ 1024 \<le> rnd x then PInf
      else if rnd x \<le> - (2 ^ 1024) then NInf
      else Num (rnd x))"

text \<open>The finite doubles: the rationals that rounding leaves as they are.\<close>

definition double :: "rat \<Rightarrow> bool" where
  "double x = (fl x = Num x)"

text \<open>
  The arithmetic operators \<open>+\<close>, \<open>-\<close>, \<open>*\<close> and \<open>/\<close> on numbers: the exact result of
  two finite operands is rounded; the other cases are those of IEEE 754.
\<close>

fun fneg :: "number \<Rightarrow> number" where
  "fneg (Num a) = Num (- a)"
| "fneg PInf = NInf"
| "fneg NInf = PInf"
| "fneg NaN = NaN"

fun fadd :: "number \<Rightarrow> number \<Rightarrow> number" where
  "fadd (Num a) (Num b) = fl (a + b)"
| "fadd NaN _ = NaN"
| "fadd _ NaN = NaN"
| "fadd PInf NInf = NaN"
| "fadd NInf PInf = NaN"
| "fadd PInf _ = PInf"
| "fadd _ PInf = PInf"
| "fadd NInf _ = NInf"
| "fadd _ NInf = NInf"

definition fsub :: "number \<Rightarrow> number \<Rightarrow> number" where
  "fsub a b = fadd a (fneg b)"

fun infinite_times :: "bool \<Rightarrow> number \<Rightarrow> number" where
  "infinite_times pos (Num b) =
     (if b = 0 then NaN else if pos = (0 < b) then PInf else NInf)"
| "infinite_times pos PInf = (if pos then PInf else NInf)"
| "infinite_times pos NInf = (if pos then NInf else PInf)"
| "infinite_times pos NaN = NaN"

fun fmul :: "number \<Rightarrow> number \<Rightarrow> number" where
  "fmul (Num a) (Num b) = fl (a * b)"
| "fmul NaN _ = NaN"
| "fmul _ NaN = NaN"
| "fmul PInf b = infinite_times True b"
| "fmul NInf b = infinite_times False b"
| "fmul a PInf = infinite_times True a"
| "fmul a NInf = infinite_times False a"

fun fdiv :: "number \<Rightarrow> number \<Rightarrow> number" where
  "fdiv (Num a) (Num b) =
     (if b = 0 then (if a = 0 then NaN else if 0 < a then PInf else NInf) else fl (a / b))"
| "fdiv NaN _ = NaN"
| "fdiv _ NaN = NaN"
| "fdiv (Num a) _ = Num 0"
| "fdiv PInf (Num b) = (if 0 \<le> b then PInf else NInf)"
| "fdiv NInf (Num b) = (if 0 \<le> b then NInf else PInf)"
| "fdiv _ _ = NaN"

text \<open>The comparisons \<open><\<close> and \<open><=\<close>, false when an operand is \<open>NaN\<close>.\<close>

fun fless :: "number \<Rightarrow> number \<Rightarrow> bool" where
  "fless (Num a) (Num b) = (a < b)"
| "fless NaN _ = False"
| "fless _ NaN = False"
| "fless _ NInf = False"
| "fless NInf _ = True"
| "fless PInf _ = False"
| "fless _ PInf = True"

fun fle :: "number \<Rightarrow> number \<Rightarrow> bool" where
  "fle NaN _ = False"
| "fle _ NaN = False"
| "fle a b = (a = b \<or> fless a b)"

text \<open>
  \<open>Math.round\<close> gives the nearest integer, a tie going up; \<open>Math.abs\<close>;
  \<open>Math.max\<close> of two numbers.
\<close>

fun Math_round :: "number \<Rightarrow> number" where
  "Math_round (Num x) = Num (of_int \<lfloor>x + 1 / 2\<rfloor>)"
| "Math_round v = v"

fun Math_abs :: "number \<Rightarrow> number" where
  "Math_abs (Num x) = Num \<bar>x\<bar>"
| "Math_abs NInf = PInf"
| "Math_abs v = v"

definition Math_max :: "number \<Rightarrow> number \<Rightarrow> number" where
  "Math_max a b = (if a = NaN \<or> b = NaN then NaN else if fless a b then b else a)"

text \<open>
  \<open>x.toFixed(k)\<close>, as the number that the string denotes: below \<open>10 ^ 21\<close> it is
  \<open>x\<close> rounded to \<open>k\<close> decimals, a tie going away from zero; from there on, and for
  an infinity or \<open>NaN\<close>, the string is that of \<open>x\<close> itself.
\<close>

fun toFixed :: "nat \<Rightarrow> number \<Rightarrow> number" where
  "toFixed k (Num x) =
     (if \<bar>x\<bar> < 10 ^ 21 then Num (sgn x * of_int \<lfloor>\<bar>x\<bar> * 10 ^ k + 1 / 2\<rfloor> / 10 ^ k)
      else Num x)"
| "toFixed k v = v"

text \<open>
  Truthiness of a number: zero and \<open>NaN\<close> are falsy. A numeric field that may be absent
  (\<open>undefined\<close> or \<open>null\<close>) is a \<open>number option\<close>, truthy when present and truthy.
\<close>

fun truthy_number :: "number \<Rightarrow> bool" where
  "truthy_number (Num x) = (x \<noteq> 0)"
| "truthy_number NaN = False"
| "truthy_number _ = True"

definition truthy :: "number option \<Rightarrow> bool" where
  "truthy v = (case v of None \<Rightarrow> False | Some x \<Rightarrow> truthy_number x)"

section \<open>Strings\<close>

text \<open>
  \<open>String.prototype.toLowerCase\<close> on the letters A to Z; every other character is
  left as it is. Strings are taken to be ASCII.
\<close>

definition toLowerCase_char :: "char \<Rightarrow> char" where
  "toLowerCase_char c =
     (case map_of (zip ''ABCDEFGHIJKLMNOPQRSTUVWXYZ'' ''abcdefghijklmnopqrstuvwxyz'') c of
        Some l \<Rightarrow> l
      | None \<Rightarrow> c)"

definition toLowerCase :: "string \<Rightarrow> string" where
  "toLowerCase s = map toLowerCase_char s"

text \<open>
  \<open>String.prototype.trim\<close> removes white space and line terminators from both ends:
  among the characters 0 to 255 these are tab, line feed, vertical tab, form feed,
  carriage return, space and the no-break space.
\<close>

definition whitespace :: "char \<Rightarrow> bool" where
  "whitespace c =
     (c \<in> set [CHR 0x09, CHR 0x0A, CHR 0x0B, CHR 0x0C, CHR 0x0D, CHR '' '', CHR 0xA0])"

definition trim :: "string \<Rightarrow> string" where
  "trim s = rev (dropWhile whitespace (rev (dropWhile whitespace s)))"

section \<open>Derivation engine: \<open>controllers/workoutController.js\<close>\<close>

text \<open>
  The result of reading a property of the object literal \<open>MET_VALUES\<close>: one of its four
  own properties (the double of the decimal written in the source), a property
  inherited from \<open>Object.prototype\<close> (an object or a function), or \<open>undefined\<close>. The
  key has been lower-cased, and \<open>constructor\<close> and \<open>__proto__\<close> are the only inherited
  property names without a capital letter.
\<close>

datatype property = Undefined | Own number | Inherited

definition MET_VALUES :: "string \<Rightarrow> property" where
  "MET_VALUES key =
     (if key = ''running'' then Own (fl (98 / 10))
      else if key = ''walking'' then Own (fl (38 / 10))
      else if key = ''cycling'' then Own (fl (75 / 10))
      else if key = ''pushups'' then Own (fl 8)
      else if key = ''constructor'' \<or> key = ''__proto__'' then Inherited
      else Undefined)"

definition falsy_property :: "property \<Rightarrow> bool" where
  "falsy_property p =
     (case p of Undefined \<Rightarrow> True | Own m \<Rightarrow> \<not> truthy_number m | Inherited \<Rightarrow> False)"

text \<open>
  What \<open>calculateCalories\<close> returns: \<open>null\<close> or a number. The product of an object
  and a number is \<open>NaN\<close>.
\<close>

datatype calories_result = Null | Calories number

definition calculateCalories ::
  "string \<Rightarrow> number option \<Rightarrow> number option \<Rightarrow> calories_result" where
  "calculateCalories ty duration weight =
     (let metValue = MET_VALUES (toLowerCase ty) in
      if falsy_property metValue \<or> \<not> truthy weight \<or> \<not> truthy duration then Null
      else case (metValue, weight, duration) of
             (Own m, Some w, Some d) \<Rightarrow>
               Calories (Math_round (fmul (fmul m w) (fdiv d (Num 60))))
           | _ \<Rightarrow> Calories NaN)"

section \<open>Time\<close>

text \<open>
  A date is its number of milliseconds since the epoch. The server's local time is taken
  at a fixed offset \<open>tz\<close> (in milliseconds) from UTC; daylight saving changes are outside
  the model. \<open>midnight tz t\<close> is \<open>new Date(y, m, d)\<close> for the local year, month and day
  of \<open>t\<close>, equally \<open>setHours(0, 0, 0, 0)\<close>; \<open>setDate(getDate() - k)\<close> moves a date by
  \<open>k\<close> days of \<open>msPerDay\<close> milliseconds. \<open>localDay tz t\<close> numbers the calendar days.
\<close>

definition msPerDay :: int where
  "msPerDay = 86400000"

definition midnight :: "int \<Rightarrow> int \<Rightarrow> int" where
  "midnight tz t = t - (t + tz) mod msPerDay"

definition localDay :: "int \<Rightarrow> int \<Rightarrow> int" where
  "localDay tz t = (t + tz) div msPerDay"

text \<open>
  The \<open>date\<close> of a request body is a whole number of milliseconds or is absent.
  \<open>date || Date.now()\<close> and \<open>date ? new Date(date) : new Date()\<close> take the clock
  when it is absent or zero. A \<open>Date\<close> holds at most 8.64e15 milliseconds on either
  side of the epoch; beyond that it is invalid, and Mongoose refuses to cast it.
\<close>

definition or_now :: "int option \<Rightarrow> int \<Rightarrow> int" where
  "or_now date now = (case date of None \<Rightarrow> now | Some t \<Rightarrow> if t = 0 then now else t)"

definition valid_date :: "int \<Rightarrow> bool" where
  "valid_date t = (\<bar>t\<bar> \<le> 8640000000000000)"

section \<open>Documents, collections and responses\<close>

text \<open>
  The three Mongoose models. Every document has an \<open>_id\<close> (here \<open>oid\<close>), the owner's
  \<open>userId\<close> and a \<open>date\<close>; a collection is the list of its documents in insertion order.
  Only the paths that the controllers write are kept.
\<close>

record doc =
  oid :: nat
  userId :: nat
  date :: int

record workout = doc +
  type :: string
  duration :: number
  weight :: "number option"
  calories :: "number option"

record nutrition = doc +
  food :: string
  calories :: number
  protein :: number
  carbs :: number
  fat :: number

record progress = doc +
  weight :: number

definition findById :: "nat \<Rightarrow> 'a doc_scheme list \<Rightarrow> 'a doc_scheme option" where
  "findById i docs = find (\<lambda>d. oid d = i) docs"

definition findByIdAndDelete :: "nat \<Rightarrow> 'a doc_scheme list \<Rightarrow> 'a doc_scheme list" where
  "findByIdAndDelete i docs = (case findById i docs of None \<Rightarrow> docs | Some d \<Rightarrow> remove1 d docs)"

fun findByIdAndUpdate ::
  "nat \<Rightarrow> ('a doc_scheme \<Rightarrow> 'a doc_scheme) \<Rightarrow> 'a doc_scheme list \<Rightarrow> 'a doc_scheme list" where
  "findByIdAndUpdate i f [] = []"
| "findByIdAndUpdate i f (d # docs) =
     (if oid d = i then f d # docs else d # findByIdAndUpdate i f docs)"

text \<open>
  A response is its HTTP status and its JSON body: a document, a \<open>message\<close>, an \<open>id\<close>,
  or, from a \<open>catch\<close> block, the message of the error that a model's \<open>create\<close> threw.
  A validation error carries the messages of the validators that failed.
\<close>

datatype error = ValidationError "string list" | DuplicateEntryError string

datatype 'a body = Json 'a | Message string | Id nat | Caught error

type_synonym 'a response = "nat \<times> 'a body"

section \<open>\<open>controllers/workoutController.js\<close>: update and delete\<close>

text \<open>
  The latest weight of a user: the first of the user's progress entries in descending
  order of date.
\<close>

definition getLatestWeight :: "nat \<Rightarrow> progress list \<Rightarrow> number option" where
  "getLatestWeight u Progress =
     (case sort_key (\<lambda>p. - doc.date p) (filter (\<lambda>p. doc.userId p = u) Progress) of
        [] \<Rightarrow> None
      | latestProgress # _ \<Rightarrow> Some (progress.weight latestProgress))"

text \<open>
  The body of an update request, with the four fields the controller reads; \<open>None\<close> is
  an absent field. \<open>a || b\<close> on such fields is \<open>or_else\<close>.
\<close>

record workout_body =
  type :: "string option"
  duration :: "number option"
  weight :: "number option"
  calories :: "number option"

definition truthy_string :: "string option \<Rightarrow> bool" where
  "truthy_string s = (case s of None \<Rightarrow> False | Some x \<Rightarrow> x \<noteq> [])"

definition or_else :: "number option \<Rightarrow> number option \<Rightarrow> number option" where
  "or_else a b = (if truthy a then a else b)"

text \<open>
  \<open>updateData\<close>: the body, with the weight fetched from the progress entries and the
  recalculated calories added when the controller adds them.
\<close>

definition updateData :: "nat \<Rightarrow> workout \<Rightarrow> workout_body \<Rightarrow> progress list \<Rightarrow> workout_body" where
  "updateData u w b Progress =
     (if (truthy_string (workout_body.type b) \<or> truthy (workout_body.duration b)
            \<or> truthy (workout_body.weight b)) \<and> \<not> truthy (workout_body.calories b)
      then
        let finalType = (case workout_body.type b of
                           Some t \<Rightarrow> if t \<noteq> [] then t else workout.type w
                         | None \<Rightarrow> workout.type w);
            finalDuration = or_else (workout_body.duration b) (Some (workout.duration w));
            weight0 = or_else (workout_body.weight b) (workout.weight w);
            finalWeight = (if \<not> truthy weight0 then getLatestWeight u Progress else weight0);
            b1 = (if \<not> truthy weight0 \<and> truthy finalWeight
                  then b\<lparr>workout_body.weight := finalWeight\<rparr> else b)
        in case calculateCalories finalType finalDuration finalWeight of
             Calories n \<Rightarrow>
               if truthy_number n then b1\<lparr>workout_body.calories := Some n\<rparr> else b1
           | _ \<Rightarrow> b1
      else b)"

text \<open>
  \<open>findByIdAndUpdate\<close> sets the paths present in \<open>updateData\<close>, casting each to the
  type of its path and running the setters of the schema (\<open>trim\<close> on \<open>type\<close>), but not
  the validators.
\<close>

definition apply_update :: "workout_body \<Rightarrow> workout \<Rightarrow> workout" where
  "apply_update b w =
     w\<lparr>workout.type :=
         (case workout_body.type b of Some t \<Rightarrow> trim t | None \<Rightarrow> workout.type w),
       workout.duration :=
         (case workout_body.duration b of Some d \<Rightarrow> d | None \<Rightarrow> workout.duration w),
       workout.weight :=
         (case workout_body.weight b of Some x \<Rightarrow> Some x | None \<Rightarrow> workout.weight w),
       workout.calories :=
         (case workout_body.calories b of Some c \<Rightarrow> Some c | None \<Rightarrow> workout.calories w)\<rparr>"

text \<open>
  The controllers take the id of the request, the authenticated user (\<open>req.user\<close>, if
  any) and the collections, and return the response with the collection afterwards.
\<close>

definition updateWorkout ::
  "nat \<Rightarrow> nat option \<Rightarrow> workout_body \<Rightarrow> progress list \<Rightarrow> workout list
     \<Rightarrow> workout response \<times> workout list" where
  "updateWorkout i user b Progress Workouts =
     (case findById i Workouts of
        None \<Rightarrow> ((400, Message ''Workout not found''), Workouts)
      | Some w \<Rightarrow>
          (case user of
             None \<Rightarrow> ((401, Message ''User not found''), Workouts)
           | Some u \<Rightarrow>
               if doc.userId w \<noteq> u then ((401, Message ''User not authorized''), Workouts)
               else let upd = apply_update (updateData u w b Progress)
                    in ((200, Json (upd w)), findByIdAndUpdate i upd Workouts)))"

definition deleteWorkout ::
  "nat \<Rightarrow> nat option \<Rightarrow> workout list \<Rightarrow> workout response \<times> workout list" where
  "deleteWorkout i user Workouts =
     (case findById i Workouts of
        None \<Rightarrow> ((400, Message ''Workout not found''), Workouts)
      | Some w \<Rightarrow>
          (case user of
             None \<Rightarrow> ((401, Message ''User not found''), Workouts)
           | Some u \<Rightarrow>
               if doc.userId w \<noteq> u then ((401, Message ''User not authorized''), Workouts)
               else ((200, Id i), findByIdAndDelete i Workouts)))"

section \<open>\<open>controllers/nutritionController.js\<close> and the Nutrition model\<close>

text \<open>
  A field of the request body as the controller tests it: absent, \<open>null\<close>, a boolean,
  a number, a string, or an array or object. Of a string the controller uses only
  whether it is empty and what \<open>Number\<close> makes of it, so a non-empty string is
  \<open>JText n\<close> with \<open>n\<close> its conversion (\<open>NaN\<close> when it is not numeric), and an array
  or object is \<open>JObject n\<close> likewise. \<open>ToNumber\<close> is \<open>Number(v)\<close>, the conversion that
  \<open>isNaN(v)\<close> and \<open>v < 0\<close> also apply; \<open>falsy v\<close> is \<open>!v\<close>.
\<close>

datatype jsvalue =
  JUndefined | JNull | JBool bool | JNumber number | JEmptyString | JText number
  | JObject number

fun ToNumber :: "jsvalue \<Rightarrow> number" where
  "ToNumber JUndefined = NaN"
| "ToNumber JNull = Num 0"
| "ToNumber (JBool b) = (if b then Num 1 else Num 0)"
| "ToNumber (JNumber x) = x"
| "ToNumber JEmptyString = Num 0"
| "ToNumber (JText x) = x"
| "ToNumber (JObject x) = x"

definition isNaN :: "jsvalue \<Rightarrow> bool" where
  "isNaN v = (ToNumber v = NaN)"

fun falsy :: "jsvalue \<Rightarrow> bool" where
  "falsy JUndefined = True"
| "falsy JNull = True"
| "falsy (JBool b) = (\<not> b)"
| "falsy (JNumber x) = (\<not> truthy_number x)"
| "falsy JEmptyString = True"
| "falsy (JText x) = False"
| "falsy (JObject x) = False"

definition negative :: "jsvalue \<Rightarrow> bool" where
  "negative v = fless (ToNumber v) (Num 0)"

record nutrition_body =
  food :: "string option"
  calories :: jsvalue
  date :: "int option"
  protein :: jsvalue
  carbs :: jsvalue
  fat :: jsvalue

text \<open>\<open>isNaN(v) ? 0 : Math.max(0, Number(v))\<close>\<close>

definition validated :: "jsvalue \<Rightarrow> number" where
  "validated v = (if isNaN v then Num 0 else Math_max (Num 0) (ToNumber v))"

text \<open>
  The validation that \<open>Nutrition.create\<close> runs before the document is stored: the
  validators of the schema, and the cast of the date. The \<open>pre('save')\<close> hook of the
  schema only logs a warning.
\<close>

definition nutrition_validation :: "nutrition \<Rightarrow> string list" where
  "nutrition_validation n =
     (if nutrition.food n = [] then [''Food name is required''] else [])
     @ (if 200 < length (nutrition.food n)
        then [''Food name cannot exceed 200 characters''] else [])
     @ (if fless (nutrition.calories n) (Num 0) then [''Calories cannot be negative''] else [])
     @ (if fless (Num 10000) (nutrition.calories n) then [''Calories seem unrealistically high''] else [])
     @ (if fless (nutrition.protein n) (Num 0) then [''Protein cannot be negative''] else [])
     @ (if fless (Num 1000) (nutrition.protein n) then [''Protein amount seems unrealistic''] else [])
     @ (if fless (nutrition.carbs n) (Num 0) then [''Carbs cannot be negative''] else [])
     @ (if fless (Num 1000) (nutrition.carbs n) then [''Carbs amount seems unrealistic''] else [])
     @ (if fless (nutrition.fat n) (Num 0) then [''Fat cannot be negative''] else [])
     @ (if fless (Num 1000) (nutrition.fat n) then [''Fat amount seems unrealistic''] else [])
     @ (if valid_date (doc.date n) then [] else [''Cast to date failed''])"

definition Nutrition_create :: "nutrition \<Rightarrow> nutrition list \<Rightarrow> error + nutrition list" where
  "Nutrition_create n Nutrition =
     (let n' = n\<lparr>nutrition.food := trim (nutrition.food n)\<rparr>
      in if nutrition_validation n' \<noteq> [] then Inl (ValidationError (nutrition_validation n'))
         else Inr (Nutrition @ [n']))"

text \<open>
  \<open>addNutrition\<close>, with the clock (\<open>now\<close>), the id that the driver gives the new
  document, and the authenticated user.
\<close>

definition addNutrition ::
  "int \<Rightarrow> nat \<Rightarrow> nat \<Rightarrow> nutrition_body \<Rightarrow> nutrition list
     \<Rightarrow> nutrition response \<times> nutrition list" where
  "addNutrition now newId user b Nutrition =
     (case nutrition_body.food b of
        None \<Rightarrow> ((400, Message ''Food name is required''), Nutrition)
      | Some f \<Rightarrow>
          if f = [] \<or> trim f = [] then ((400, Message ''Food name is required''), Nutrition)
          else if falsy (nutrition_body.calories b) \<or> isNaN (nutrition_body.calories b)
                  \<or> negative (nutrition_body.calories b)
          then ((400, Message ''Valid calories value is required''), Nutrition)
          else
            let validatedProtein = validated (nutrition_body.protein b);
                validatedCarbs = validated (nutrition_body.carbs b);
                validatedFat = validated (nutrition_body.fat b);
                n = \<lparr>doc.oid = newId, doc.userId = user,
                     doc.date = or_now (nutrition_body.date b) now,
                     nutrition.food = trim f,
                     nutrition.calories = ToNumber (nutrition_body.calories b),
                     nutrition.protein = validatedProtein, nutrition.carbs = validatedCarbs,
                     nutrition.fat = validatedFat\<rparr>
            in case Nutrition_create n Nutrition of
                 Inl e \<Rightarrow> ((500, Caught e), Nutrition)
               | Inr Nutrition' \<Rightarrow> ((201, Json n), Nutrition'))"

definition deleteNutrition ::
  "nat \<Rightarrow> nat option \<Rightarrow> nutrition list \<Rightarrow> nutrition response \<times> nutrition list" where
  "deleteNutrition i user Nutrition =
     (case findById i Nutrition of
        None \<Rightarrow> ((404, Message ''Nutrition entry not found''), Nutrition)
      | Some n \<Rightarrow>
          (case user of
             None \<Rightarrow> ((401, Message ''User not found''), Nutrition)
           | Some u \<Rightarrow>
               if doc.userId n \<noteq> u then ((401, Message ''User not authorized''), Nutrition)
               else ((200, Id i), findByIdAndDelete i Nutrition)))"

section \<open>\<open>controllers/progressController.js\<close> and the Progress model\<close>

text \<open>
  The validation that \<open>Progress.create\<close> runs: the validators of the schema, and the
  cast of the date.
\<close>

definition progress_validation :: "progress \<Rightarrow> string list" where
  "progress_validation p =
     (if fless (progress.weight p) (Num 20) then [''Weight must be at least 20 kg''] else [])
     @ (if fless (Num 500) (progress.weight p) then [''Weight must be less than 500 kg'']
        else [])
     @ (if valid_date (doc.date p) then [] else [''Cast to date failed''])"

text \<open>
  The \<open>pre('save')\<close> hook of the schema, for a new document: it looks for an entry of the
  same user between the start and the end of the local day of the new entry.
\<close>

definition existingEntry :: "int \<Rightarrow> progress \<Rightarrow> progress list \<Rightarrow> progress option" where
  "existingEntry tz this Progress =
     (let startOfDay = midnight tz (doc.date this);
          endOfDay = midnight tz (doc.date this) + (msPerDay - 1)
      in find (\<lambda>p. doc.userId p = doc.userId this
                   \<and> startOfDay \<le> doc.date p \<and> doc.date p \<le> endOfDay) Progress)"

definition progress_pre_save :: "int \<Rightarrow> progress \<Rightarrow> progress list \<Rightarrow> error option" where
  "progress_pre_save tz this Progress =
     (case existingEntry tz this Progress of
        Some _ \<Rightarrow> Some (DuplicateEntryError ''Progress entry already exists for this date'')
      | None \<Rightarrow> None)"

text \<open>
  \<open>Progress.create\<close>: Mongoose validates the document, then runs the hook, then stores
  the document.
\<close>

definition Progress_create :: "int \<Rightarrow> progress \<Rightarrow> progress list \<Rightarrow> error + progress list" where
  "Progress_create tz p Progress =
     (if progress_validation p \<noteq> [] then Inl (ValidationError (progress_validation p))
      else case progress_pre_save tz p Progress of
             Some e \<Rightarrow> Inl e
           | None \<Rightarrow> Inr (Progress @ [p]))"

record progress_body =
  weight :: "number option"
  date :: "int option"

definition addProgress ::
  "int \<Rightarrow> int \<Rightarrow> nat \<Rightarrow> nat \<Rightarrow> progress_body \<Rightarrow> progress list
     \<Rightarrow> progress response \<times> progress list" where
  "addProgress tz now newId user b Progress =
     (case progress_body.weight b of
        None \<Rightarrow> ((400, Message ''Please add weight''), Progress)
      | Some w \<Rightarrow>
          if \<not> truthy_number w then ((400, Message ''Please add weight''), Progress)
          else
            let p = \<lparr>doc.oid = newId, doc.userId = user,
                     doc.date = or_now (progress_body.date b) now,
                     progress.weight = w\<rparr>
            in case Progress_create tz p Progress of
                 Inl e \<Rightarrow> ((500, Caught e), Progress)
               | Inr Progress' \<Rightarrow> ((201, Json p), Progress'))"

definition deleteProgress ::
  "nat \<Rightarrow> nat option \<Rightarrow> progress list \<Rightarrow> progress response \<times> progress list" where
  "deleteProgress i user Progress =
     (case findById i Progress of
        None \<Rightarrow> ((400, Message ''Progress entry not found''), Progress)
      | Some p \<Rightarrow>
          (case user of
             None \<Rightarrow> ((401, Message ''User not found''), Progress)
           | Some u \<Rightarrow>
               if doc.userId p \<noteq> u then ((401, Message ''User not authorized''), Progress)
               else ((200, Id i), findByIdAndDelete i Progress)))"

text \<open>
  The invariant of the collection: no two entries of one user fall on the same calendar
  day.
\<close>

definition one_per_day :: "int \<Rightarrow> progress list \<Rightarrow> bool" where
  "one_per_day tz Progress =
     distinct (map (\<lambda>p. (doc.userId p, localDay tz (doc.date p))) Progress)"

section \<open>The analytics controller\<close>

subsection \<open>\<open>currentStreak\<close>\<close>

text \<open>
  \<open>dateMap\<close> is a JavaScript \<open>Map\<close> from the ISO string of a local midnight to the
  documents of that day: here a list of pairs in insertion order, keyed by the local
  midnight itself. \<open>push_doc\<close> is the body of the \<open>forEach\<close>: the key is added with an
  empty list if the map does not have it, and the document is pushed onto its list.
\<close>

fun push_doc :: "int \<Rightarrow> 'a \<Rightarrow> (int \<times> 'a list) list \<Rightarrow> (int \<times> 'a list) list" where
  "push_doc dateKey d [] = [(dateKey, [d])]"
| "push_doc dateKey d ((k, ds) # dateMap) =
     (if k = dateKey then (k, ds @ [d]) # dateMap else (k, ds) # push_doc dateKey d dateMap)"

definition group_by_date :: "int \<Rightarrow> 'a doc_scheme list \<Rightarrow> (int \<times> 'a doc_scheme list) list" where
  "group_by_date tz docs = fold (\<lambda>d dateMap. push_doc (midnight tz (doc.date d)) d dateMap) docs []"

function streak_loop :: "(int \<times> 'a list) list \<Rightarrow> int \<Rightarrow> nat \<Rightarrow> nat" where
  "streak_loop dateMap currentDate streak =
     (if currentDate \<in> fst ` set dateMap
      then streak_loop dateMap (currentDate - msPerDay) (streak + 1)
      else streak)"
  by pat_completeness auto
termination
proof (relation "measure (\<lambda>(dateMap, currentDate, streak).
          length (filter (\<lambda>k. k \<le> currentDate) (map fst dateMap)))")
  show "wf (measure (\<lambda>(dateMap :: (int \<times> 'a list) list, currentDate, streak :: nat).
          length (filter (\<lambda>k. k \<le> currentDate) (map fst dateMap))))"
    by simp
next
  fix dateMap :: "(int \<times> 'a list) list" and currentDate :: int and streak :: nat
  assume "currentDate \<in> fst ` set dateMap"
  then have c: "currentDate \<in> set (filter (\<lambda>k. k \<le> currentDate) (map fst dateMap))"
    by simp
  have eq: "filter (\<lambda>k. k \<le> currentDate - msPerDay) (map fst dateMap)
      = filter (\<lambda>k. k \<le> currentDate - msPerDay)
          (filter (\<lambda>k. k \<le> currentDate) (map fst dateMap))"
    by (auto simp: msPerDay_def intro: filter_cong)
  have "length (filter (\<lambda>k. k \<le> currentDate - msPerDay)
          (filter (\<lambda>k. k \<le> currentDate) (map fst dateMap)))
      < length (filter (\<lambda>k. k \<le> currentDate) (map fst dateMap))"
    using c by (rule length_filter_less) (simp add: msPerDay_def)
  then have "length (filter (\<lambda>k. k \<le> currentDate - msPerDay) (map fst dateMap))
      < length (filter (\<lambda>k. k \<le> currentDate) (map fst dateMap))"
    by (simp only: eq [symmetric])
  then show "((dateMap, currentDate - msPerDay, streak + 1), (dateMap, currentDate, streak))
      \<in> measure (\<lambda>(dateMap, currentDate, streak).
          length (filter (\<lambda>k. k \<le> currentDate) (map fst dateMap)))"
    by (simp only: in_measure prod.case)
qed

declare streak_loop.simps [simp del]

definition currentStreak :: "int \<Rightarrow> int \<Rightarrow> 'a doc_scheme list \<Rightarrow> nat" where
  "currentStreak tz now docs =
     (if docs = [] then 0
      else streak_loop (group_by_date tz docs) (midnight tz now) 0)"

text \<open>A calendar day with at least one entry.\<close>

definition logged :: "int \<Rightarrow> 'a doc_scheme list \<Rightarrow> int \<Rightarrow> bool" where
  "logged tz docs day = (\<exists>d \<in> set docs. localDay tz (doc.date d) = day)"

subsection \<open>Macro percentages\<close>



text \<open>\<open>nutritionUtils.calculateMacroPercentages\<close> of the client: protein, carbs, fat.\<close>

definition calculateMacroPercentages ::
  "number \<Rightarrow> number \<Rightarrow> number \<Rightarrow> number \<times> number \<times> number" where
  "calculateMacroPercentages p c f =
     (let total = fadd (fadd p c) f
      in if total = Num 0 then (Num 0, Num 0, Num 0)
         else (Math_round (fmul (fdiv p total) (Num 100)),
               Math_round (fmul (fdiv c total) (Num 100)),
               Math_round (fmul (fdiv f total) (Num 100))))"

text \<open>
  The percentage in the words of the specification, \<open>round(100 * component / total)\<close>,
  in the arithmetic of the program.
\<close>

definition spec_percentage :: "number \<Rightarrow> number \<Rightarrow> number" where
  "spec_percentage component whole = Math_round (fdiv (fmul (Num 100) component) whole)"

subsection \<open>Forecast\<close>

text \<open>
  The callback of the \<open>forEach\<close> over the entries with their indices, on the four sums,
  and the sums after the loop.
\<close>

definition accumulate ::
  "nat \<times> number \<Rightarrow> number \<times> number \<times> number \<times> number
     \<Rightarrow> number \<times> number \<times> number \<times> number" where
  "accumulate =
     (\<lambda>(index, y) (sumX, sumY, sumXY, sumX2).
        let x = Num (of_nat index)
        in (fadd sumX x, fadd sumY y, fadd sumXY (fmul x y), fadd sumX2 (fmul x x)))"

definition regression_sums :: "number list \<Rightarrow> number \<times> number \<times> number \<times> number" where
  "regression_sums ys = fold accumulate (enumerate 0 ys) (Num 0, Num 0, Num 0, Num 0)"

definition slope :: "number list \<Rightarrow> number" where
  "slope ys =
     (let n = Num (of_nat (length ys))
      in case regression_sums ys of
           (sumX, sumY, sumXY, sumX2) \<Rightarrow>
             fdiv (fsub (fmul n sumXY) (fmul sumX sumY)) (fsub (fmul n sumX2) (fmul sumX sumX)))"

definition weeklyChange :: "number list \<Rightarrow> number" where
  "weeklyChange ys = fmul (slope ys) (Num 7)"

definition monthlyChange :: "number list \<Rightarrow> number" where
  "monthlyChange ys = fmul (slope ys) (Num 30)"

text \<open>
  The message of a forecast: stable, or at this rate a gain or a loss of so many
  kilograms in one month, the number given by \<open>toFixed(1)\<close>.
\<close>

datatype trend = Stable | Gain number | Lose number

text \<open>
  The response of \<open>getForecast\<close>: a null prediction with a message, or the forecast.
  The two trends are strings made by \<open>toFixed(2)\<close>.
\<close>

datatype forecast =
  NoPrediction string
| Forecast (currentWeight: number) (weeklyTrend: number) (monthlyTrend: number)
    (message: trend) (dataPoints: nat)

text \<open>The user's entries of the last thirty days in ascending order of date.\<close>

definition weightData :: "int \<Rightarrow> nat \<Rightarrow> progress list \<Rightarrow> progress list" where
  "weightData now user Progress =
     (let monthAgo = now - 30 * msPerDay
      in sort_key doc.date
           (filter (\<lambda>p. doc.userId p = user \<and> monthAgo \<le> doc.date p) Progress))"

definition forecast_of :: "progress list \<Rightarrow> forecast" where
  "forecast_of wd =
     (if length wd < 2
      then NoPrediction ''Need at least 2 weight entries to generate forecast''
      else
        let ys = map progress.weight wd;
            msg = (if fless (Math_abs (weeklyChange ys)) (fl (1 / 10)) then Stable
                   else if fless (Num 0) (weeklyChange ys)
                   then Gain (toFixed 1 (Math_abs (monthlyChange ys)))
                   else Lose (toFixed 1 (Math_abs (monthlyChange ys))))
        in Forecast (progress.weight (last wd)) (toFixed 2 (weeklyChange ys))
             (toFixed 2 (monthlyChange ys)) msg (length wd))"

definition getForecast :: "int \<Rightarrow> nat \<Rightarrow> progress list \<Rightarrow> forecast" where
  "getForecast now user Progress = forecast_of (weightData now user Progress)"

text \<open>
  The slope in the words of the specification: the least-squares slope of the weights
  over their zero-based positions, every operation being that of the program's
  numbers and every sum running from the first sample to the last.
\<close>

fun fsum :: "(nat \<Rightarrow> number) \<Rightarrow> nat \<Rightarrow> number" where
  "fsum f 0 = Num 0"
| "fsum f (Suc n) = fadd (fsum f n) (f n)"

definition ols_slope :: "number list \<Rightarrow> number" where
  "ols_slope ys =
     (let n = length ys;
          x = (\<lambda>i. Num (of_nat i));
          y = (\<lambda>i. ys ! i)
      in fdiv (fsub (fmul (Num (of_nat n)) (fsum (\<lambda>i. fmul (x i) (y i)) n))
                    (fmul (fsum x n) (fsum y n)))
              (fsub (fmul (Num (of_nat n)) (fsum (\<lambda>i. fmul (x i) (x i)) n))
                    (fmul (fsum x n) (fsum x n))))"

section \<open>Properties of the arithmetic\<close>

subsection \<open>Rounding to the nearest integer\<close>

lemma rhe_cases:
  "rhe q = \<lfloor>q\<rfloor> \<or> rhe q = \<lfloor>q\<rfloor> + 1"
  by (simp add: rhe_def Let_def)

lemma rhe_bounds: "\<bar>of_int (rhe q) - q\<bar> \<le> 1 / 2"
proof -
  have "of_int \<lfloor>q\<rfloor> \<le> q" "q < of_int \<lfloor>q\<rfloor> + 1" by linarith+
  then show ?thesis
    by (auto simp: rhe_def Let_def abs_le_iff)
qed

lemma rhe_eqI: "\<bar>q - of_int n\<bar> < 1 / 2 \<Longrightarrow> rhe q = n"
proof -
  assume a: "\<bar>q - of_int n\<bar> < 1 / 2"
  have "\<bar>of_int (rhe q) - q\<bar> \<le> 1 / 2" by (rule rhe_bounds)
  with a have "\<bar>(of_int (rhe q) :: rat) - of_int n\<bar> < 1" by linarith
  then have "\<bar>(of_int (rhe q - n) :: rat)\<bar> < of_int 1" by simp
  then have "\<bar>rhe q - n\<bar> < 1" by (simp only: of_int_abs [symmetric] of_int_less_iff)
  then show ?thesis by linarith
qed

lemma rhe_of_int [simp]: "rhe (of_int n) = n"
  by (rule rhe_eqI) simp

lemma rhe_tie: "rhe (of_int n + 1 / 2) = (if even n then n else n + 1)"
proof -
  have "\<lfloor>(of_int n :: rat) + 1 / 2\<rfloor> = n" by (simp add: floor_eq_iff)
  then show ?thesis by (simp add: rhe_def Let_def)
qed

lemma rhe_mono: "q \<le> q' \<Longrightarrow> rhe q \<le> rhe q'"
proof -
  assume le: "q \<le> q'"
  then have f: "\<lfloor>q\<rfloor> \<le> \<lfloor>q'\<rfloor>" by (rule floor_mono)
  show ?thesis
  proof (cases "\<lfloor>q\<rfloor> = \<lfloor>q'\<rfloor>")
    case True
    with le show ?thesis by (auto simp: rhe_def Let_def)
  next
    case False
    with f have "\<lfloor>q\<rfloor> + 1 \<le> \<lfloor>q'\<rfloor>" by simp
    moreover have "rhe q \<le> \<lfloor>q\<rfloor> + 1" using rhe_cases [of q] by auto
    moreover have "\<lfloor>q'\<rfloor> \<le> rhe q'" using rhe_cases [of q'] by auto
    ultimately show ?thesis by linarith
  qed
qed

lemma rhe_minus: "rhe (- q) = - rhe q"
proof (cases "\<bar>q - of_int (rhe q)\<bar> < 1 / 2")
  case True
  then have "\<bar>- q - of_int (- rhe q)\<bar> < 1 / 2" by (simp add: abs_if split: if_splits)
  then show ?thesis by (rule rhe_eqI)
next
  case False
  with rhe_bounds [of q] have "\<bar>q - of_int (rhe q)\<bar> = 1 / 2" by linarith
  then consider "q = of_int (rhe q) + 1 / 2" | "q = of_int (rhe q - 1) + 1 / 2"
    by (auto simp: abs_if split: if_splits) 
  then show ?thesis
  proof cases
    case 1
    then have "rhe q = (if even (rhe q) then rhe q else rhe q + 1)"
      using rhe_tie [of "rhe q"] by simp
    then have ev: "even (rhe q)" by (simp split: if_splits)
    from 1 have "- q = of_int (- rhe q - 1) + 1 / 2" by simp
    then have "rhe (- q) = (if even (- rhe q - 1) then - rhe q - 1 else - rhe q - 1 + 1)"
      using rhe_tie [of "- rhe q - 1"] by simp
    with ev show ?thesis by simp
  next
    case 2
    then have "rhe q = (if even (rhe q - 1) then rhe q - 1 else rhe q - 1 + 1)"
      using rhe_tie [of "rhe q - 1"] by simp
    then have ev: "odd (rhe q - 1)" by (simp split: if_splits)
    from 2 have "- q = of_int (- rhe q) + 1 / 2" by simp
    then have "rhe (- q) = (if even (- rhe q) then - rhe q else - rhe q + 1)"
      using rhe_tie [of "- rhe q"] by simp
    with ev show ?thesis by simp
  qed
qed

subsection \<open>Binades\<close>

lemma bitlen_powi:
  assumes "0 < p"
  shows "(2 :: rat) powi (bitlen p - 1) \<le> of_int p" and "(of_int p :: rat) < 2 powi bitlen p"
proof -
  from bitlen_bounds [OF assms]
  have l: "2 ^ nat (bitlen p - 1) \<le> p" and u: "p < 2 ^ nat (bitlen p)" by simp_all
  have b: "1 \<le> bitlen p"
    using assms bitlen_eq_zero_iff [of p] bitlen_nonneg [of p] by linarith
  from l have "(of_int (2 ^ nat (bitlen p - 1)) :: rat) \<le> of_int p"
    by (simp only: of_int_le_iff)
  then show "(2 :: rat) powi (bitlen p - 1) \<le> of_int p"
    using b by (simp add: power_int_nonneg_exp)
  from u have "(of_int p :: rat) < of_int (2 ^ nat (bitlen p))"
    by (simp only: of_int_less_iff)
  then show "(of_int p :: rat) < 2 powi bitlen p"
    using b by (simp add: power_int_nonneg_exp)
qed

lemma elog_bounds:
  assumes "x \<noteq> 0"
  shows "2 powi elog x \<le> \<bar>x\<bar>" and "\<bar>x\<bar> < 2 powi (elog x + 1)"
proof -
  obtain p q where pq: "quotient_of \<bar>x\<bar> = (p, q)" by force
  have q: "0 < q" by (rule quotient_of_denom_pos [OF pq])
  have a: "\<bar>x\<bar> = of_int p / of_int q" by (rule quotient_of_div [OF pq])
  from assms have "0 < \<bar>x\<bar>" by simp
  with a q have p: "0 < p" by (simp add: zero_less_divide_iff)
  let ?k = "bitlen p - bitlen q"
  have "of_int p / of_int q < (2 :: rat) powi bitlen p / 2 powi (bitlen q - 1)"
    using p q bitlen_powi(2) [OF p] bitlen_powi(1) [OF q] by (intro frac_less) simp_all
  moreover have "(2 :: rat) powi (bitlen p - (bitlen q - 1)) = 2 powi bitlen p / 2 powi (bitlen q - 1)"
    by (rule power_int_diff) simp
  moreover have "bitlen p - (bitlen q - 1) = ?k + 1" by simp
  ultimately have upper: "\<bar>x\<bar> < 2 powi (?k + 1)"
    by (simp only: a)
  have "(2 :: rat) powi (bitlen p - 1) / 2 powi bitlen q < of_int p / of_int q"
    using p q bitlen_powi(1) [OF p] bitlen_powi(2) [OF q] by (intro frac_less2) simp_all
  moreover have "(2 :: rat) powi (bitlen p - 1 - bitlen q) = 2 powi (bitlen p - 1) / 2 powi bitlen q"
    by (rule power_int_diff) simp
  moreover have "bitlen p - 1 - bitlen q = ?k - 1" by simp
  ultimately have lower: "2 powi (?k - 1) < \<bar>x\<bar>"
    by (simp only: a)
  have e: "elog x = (if 2 powi ?k \<le> \<bar>x\<bar> then ?k else ?k - 1)"
    by (simp add: elog_def pq Let_def)
  show "2 powi elog x \<le> \<bar>x\<bar>"
    using lower by (simp add: e)
  show "\<bar>x\<bar> < 2 powi (elog x + 1)"
    using upper by (simp add: e)
qed

lemma powi_less_imp: "(2 :: rat) powi m < 2 powi n \<Longrightarrow> m < n"
  by (rule ccontr) (simp add: not_less power_int_increasing leD)

lemma elog_eqI:
  assumes "2 powi e \<le> \<bar>x\<bar>" and "\<bar>x\<bar> < 2 powi (e + 1)"
  shows "elog x = e"
proof -
  have "0 < (2 :: rat) powi e" by simp
  with assms(1) have "0 < \<bar>x\<bar>" by linarith
  then have nz: "x \<noteq> 0" by simp
  from elog_bounds [OF nz] assms
  have 1: "(2 :: rat) powi e < 2 powi (elog x + 1)"
    and 2: "(2 :: rat) powi elog x < 2 powi (e + 1)"
    by linarith+
  from 1 have "e < elog x + 1" by (rule powi_less_imp)
  moreover from 2 have "elog x < e + 1" by (rule powi_less_imp)
  ultimately show ?thesis by simp
qed

lemma elog_mono:
  assumes "x \<noteq> 0" and "\<bar>x\<bar> \<le> \<bar>y\<bar>"
  shows "elog x \<le> elog y"
proof -
  from assms have "y \<noteq> 0" by auto
  from elog_bounds(1) [OF assms(1)] elog_bounds(2) [OF this] assms(2)
  have "(2 :: rat) powi elog x < 2 powi (elog y + 1)" by linarith
  then have "elog x < elog y + 1" by (rule powi_less_imp)
  then show ?thesis by simp
qed

lemma elog_minus [simp]: "elog (- x) = elog x"
  by (simp add: elog_def)

subsection \<open>Rounding to the nearest double\<close>

lemma powi_int: "0 \<le> k \<Longrightarrow> (2 :: rat) powi k = of_int (2 ^ nat k)"
  by (simp add: power_int_nonneg_exp)

lemma powi_quot: "(2 :: rat) powi b / 2 powi e = 2 powi (b - e)"
  by (rule power_int_diff [symmetric]) simp

lemma ulp_exp_ge: "- 1074 \<le> ulp_exp x"
proof (cases "\<bar>x\<bar> < 2 powi (- 1022)")
  case True
  then show ?thesis by (simp add: ulp_exp_def)
next
  case False
  then have n: "(2 :: rat) powi (- 1022) \<le> \<bar>x\<bar>" by simp
  have "0 < (2 :: rat) powi (- 1022)" by (rule zero_less_power_int) simp
  with n have "x \<noteq> 0" by auto
  from n elog_bounds(2) [OF this] have "(2 :: rat) powi (- 1022) < 2 powi (elog x + 1)"
    by linarith
  then have "- 1022 < elog x + 1" by (rule powi_less_imp)
  with False show ?thesis by (simp add: ulp_exp_def)
qed

lemma ulp_exp_normal:
  assumes "2 powi (- 1022) \<le> \<bar>x\<bar>"
  shows "ulp_exp x = elog x - 52" and "- 1022 \<le> elog x"
proof -
  from assms show u: "ulp_exp x = elog x - 52" by (simp add: ulp_exp_def)
  from ulp_exp_ge [of x] u show "- 1022 \<le> elog x" by simp
qed

lemma ulp_exp_minus [simp]: "ulp_exp (- x) = ulp_exp x"
  by (simp add: ulp_exp_def)

lemma ulp_exp_mono:
  assumes "\<bar>x\<bar> \<le> \<bar>y\<bar>"
  shows "ulp_exp x \<le> ulp_exp y"
proof (cases "\<bar>x\<bar> < 2 powi (- 1022)")
  case True
  then have "ulp_exp x = - 1074" by (simp add: ulp_exp_def)
  with ulp_exp_ge [of y] show ?thesis by simp
next
  case False
  then have nx: "(2 :: rat) powi (- 1022) \<le> \<bar>x\<bar>" by simp
  with assms have ny: "(2 :: rat) powi (- 1022) \<le> \<bar>y\<bar>" by linarith
  have "0 < (2 :: rat) powi (- 1022)" by (rule zero_less_power_int) simp
  with nx have "x \<noteq> 0" by auto
  then have "elog x \<le> elog y" using assms by (rule elog_mono)
  then show ?thesis
    by (simp add: ulp_exp_normal(1) [OF nx] ulp_exp_normal(1) [OF ny])
qed

lemma ulp_exp_le:
  assumes "\<bar>x\<bar> < 2 powi (b + 53)" and "- 1074 \<le> b"
  shows "ulp_exp x \<le> b"
proof (cases "\<bar>x\<bar> < 2 powi (- 1022)")
  case True
  with assms(2) show ?thesis by (simp add: ulp_exp_def)
next
  case False
  then have n: "(2 :: rat) powi (- 1022) \<le> \<bar>x\<bar>" by simp
  have "0 < (2 :: rat) powi (- 1022)" by (rule zero_less_power_int) simp
  with n have "x \<noteq> 0" by auto
  from elog_bounds(1) [OF this] assms(1) have "(2 :: rat) powi elog x < 2 powi (b + 53)"
    by linarith
  then have "elog x < b + 53" by (rule powi_less_imp)
  then show ?thesis by (simp add: ulp_exp_normal(1) [OF n])
qed

lemma rhe_zero [simp]: "rhe 0 = 0"
  using rhe_of_int [of 0] by simp

lemma rnd_zero [simp]: "rnd 0 = 0"
  by (simp add: rnd_def)

lemma rnd_minus: "rnd (- x) = - rnd x"
  by (simp add: rnd_def rhe_minus)

lemma rnd_exact:
  assumes "x = of_int m * 2 powi k" and "ulp_exp x \<le> k"
  shows "rnd x = x"
proof -
  let ?e = "ulp_exp x"
  have "x / 2 powi ?e = of_int m * (2 powi k / 2 powi ?e)"
    by (simp add: assms(1))
  also have "\<dots> = of_int m * of_int (2 ^ nat (k - ?e))"
    using assms(2) by (simp add: powi_quot powi_int)
  also have "\<dots> = of_int (m * 2 ^ nat (k - ?e))" by simp
  finally have q: "x / 2 powi ?e = of_int (m * 2 ^ nat (k - ?e))" .
  have "rnd x = x / 2 powi ?e * 2 powi ?e"
    unfolding rnd_def q rhe_of_int ..
  then show ?thesis by simp
qed

lemma rnd_le_pow:
  assumes "x \<le> 2 powi b" and "ulp_exp x \<le> b"
  shows "rnd x \<le> 2 powi b"
proof -
  let ?e = "ulp_exp x"
  have pos: "0 < (2 :: rat) powi ?e" by (rule zero_less_power_int) simp
  have "x / 2 powi ?e \<le> 2 powi b / 2 powi ?e"
    using assms(1) pos by (simp add: divide_right_mono)
  also have "\<dots> = of_int (2 ^ nat (b - ?e))"
    using assms(2) by (simp add: powi_quot powi_int)
  finally have "rhe (x / 2 powi ?e) \<le> rhe (of_int (2 ^ nat (b - ?e)))"
    by (rule rhe_mono)
  then have "(of_int (rhe (x / 2 powi ?e)) :: rat) \<le> of_int (2 ^ nat (b - ?e))"
    by (simp only: rhe_of_int of_int_le_iff)
  also have "\<dots> = 2 powi b / 2 powi ?e"
    using assms(2) by (simp add: powi_quot powi_int)
  finally have "(of_int (rhe (x / 2 powi ?e)) :: rat) * 2 powi ?e
      \<le> 2 powi b / 2 powi ?e * 2 powi ?e"
    using pos by (simp only: mult_le_cancel_right_pos)
  then show ?thesis by (simp add: rnd_def)
qed

lemma rnd_ge_pow:
  assumes "2 powi b \<le> x" and "ulp_exp x \<le> b"
  shows "2 powi b \<le> rnd x"
proof -
  let ?e = "ulp_exp x"
  have pos: "0 < (2 :: rat) powi ?e" by (rule zero_less_power_int) simp
  have "(of_int (2 ^ nat (b - ?e)) :: rat) = 2 powi b / 2 powi ?e"
    using assms(2) by (simp add: powi_quot powi_int)
  also have "\<dots> \<le> x / 2 powi ?e"
    using assms(1) pos by (simp add: divide_right_mono)
  finally have "rhe (of_int (2 ^ nat (b - ?e))) \<le> rhe (x / 2 powi ?e)"
    by (rule rhe_mono)
  then have "(of_int (2 ^ nat (b - ?e)) :: rat) \<le> of_int (rhe (x / 2 powi ?e))"
    by (simp only: rhe_of_int of_int_le_iff)
  moreover have "(of_int (2 ^ nat (b - ?e)) :: rat) = 2 powi b / 2 powi ?e"
    using assms(2) by (simp add: powi_quot powi_int)
  ultimately have "(2 :: rat) powi b / 2 powi ?e * 2 powi ?e
      \<le> of_int (rhe (x / 2 powi ?e)) * 2 powi ?e"
    using pos by (simp only: mult_le_cancel_right_pos)
  then show ?thesis by (simp add: rnd_def)
qed

lemma rnd_nonneg: "0 \<le> x \<Longrightarrow> 0 \<le> rnd x"
proof -
  assume "0 \<le> x"
  then have "0 \<le> x / 2 powi ulp_exp x" by simp
  then have "rhe 0 \<le> rhe (x / 2 powi ulp_exp x)" by (rule rhe_mono)
  then show ?thesis by (simp add: rnd_def)
qed

lemma rnd_mono_pos:
  assumes "0 < x" and "x \<le> y"
  shows "rnd x \<le> rnd y"
proof -
  have le: "ulp_exp x \<le> ulp_exp y" using assms by (intro ulp_exp_mono) simp
  show ?thesis
  proof (cases "ulp_exp x = ulp_exp y")
    case True
    have pos: "0 < (2 :: rat) powi ulp_exp y" by (rule zero_less_power_int) simp
    then have "x / 2 powi ulp_exp y \<le> y / 2 powi ulp_exp y"
      using assms(2) by (simp add: divide_right_mono)
    then have "rhe (x / 2 powi ulp_exp y) \<le> rhe (y / 2 powi ulp_exp y)" by (rule rhe_mono)
    then have "(of_int (rhe (x / 2 powi ulp_exp y)) :: rat) \<le> of_int (rhe (y / 2 powi ulp_exp y))"
      by (simp only: of_int_le_iff)
    then show ?thesis
      using pos by (simp add: rnd_def True)
  next
    case False
    with le have lt: "ulp_exp x < ulp_exp y" by simp
    with ulp_exp_ge [of x] have "\<not> \<bar>y\<bar> < 2 powi (- 1022)"
      by (auto simp: ulp_exp_def)
    then have ny: "(2 :: rat) powi (- 1022) \<le> \<bar>y\<bar>" by simp
    note uy = ulp_exp_normal [OF ny]
    let ?b = "elog y"
    from assms have "y \<noteq> 0" by auto
    from elog_bounds(1) [OF this] assms have yb: "2 powi ?b \<le> y" by simp
    have xb: "x \<le> 2 powi ?b"
    proof (cases "\<bar>x\<bar> < 2 powi (- 1022)")
      case True
      moreover have "(2 :: rat) powi (- 1022) \<le> 2 powi ?b"
        using uy(2) by (intro power_int_increasing) simp_all
      ultimately show ?thesis by linarith
    next
      case False
      then have nx: "(2 :: rat) powi (- 1022) \<le> \<bar>x\<bar>" by simp
      from lt have "elog x + 1 \<le> ?b"
        by (simp add: ulp_exp_normal(1) [OF nx] uy(1))
      then have "(2 :: rat) powi (elog x + 1) \<le> 2 powi ?b"
        by (intro power_int_increasing) simp_all
      moreover from assms have "x \<noteq> 0" by auto
      from elog_bounds(2) [OF this] have "\<bar>x\<bar> < 2 powi (elog x + 1)" .
      ultimately show ?thesis by linarith
    qed
    have "ulp_exp x \<le> ?b" using lt uy(1) by simp
    with xb have "rnd x \<le> 2 powi ?b" by (rule rnd_le_pow)
    moreover have "ulp_exp y \<le> ?b" using uy(1) by simp
    with yb have "2 powi ?b \<le> rnd y" by (rule rnd_ge_pow)
    ultimately show ?thesis by simp
  qed
qed

lemma rnd_mono:
  assumes "x \<le> y"
  shows "rnd x \<le> rnd y"
proof -
  consider "0 < x" | "x \<le> 0" "0 \<le> y" | "y < 0" by linarith
  then show ?thesis
  proof cases
    case 1
    then show ?thesis using assms by (rule rnd_mono_pos)
  next
    case 2
    then have "0 \<le> rnd y" and "0 \<le> rnd (- x)" by (simp_all add: rnd_nonneg)
    then show ?thesis by (simp add: rnd_minus)
  next
    case 3
    then have "0 < - y" and "- y \<le> - x" using assms by simp_all
    then have "rnd (- y) \<le> rnd (- x)" by (rule rnd_mono_pos)
    then show ?thesis by (simp add: rnd_minus)
  qed
qed


lemma rnd_error: "\<bar>rnd x - x\<bar> \<le> 2 powi ulp_exp x / 2"
proof -
  let ?u = "(2 :: rat) powi ulp_exp x"
  have pos: "0 < ?u" by (rule zero_less_power_int) simp
  have "rnd x - x = (of_int (rhe (x / ?u)) - x / ?u) * ?u"
    using pos by (simp add: rnd_def algebra_simps)
  then have "\<bar>rnd x - x\<bar> = \<bar>of_int (rhe (x / ?u)) - x / ?u\<bar> * ?u"
    using pos by (simp add: abs_mult)
  also have "\<dots> \<le> 1 / 2 * ?u"
    using rhe_bounds [of "x / ?u"] pos by (intro mult_right_mono) simp_all
  finally show ?thesis by simp
qed

subsection \<open>Values of the rounding\<close>

lemma fl_finite: "\<bar>rnd x\<bar> < 2 ^ 1024 \<Longrightarrow> fl x = Num (rnd x)"
  by (simp add: fl_def abs_if split: if_splits)


lemma elog_pow: "elog (2 powi e) = e"
  by (rule elog_eqI) (simp_all add: power_int_strict_increasing)

lemma rnd_pow:
  assumes "- 1074 \<le> e"
  shows "rnd (2 powi e) = 2 powi e"
proof (rule rnd_exact [where m = 1 and k = e])
  show "(2 :: rat) powi e = of_int 1 * 2 powi e" by simp
  have "\<bar>(2 :: rat) powi e\<bar> < 2 powi (e + 53)"
    by (simp add: power_int_strict_increasing)
  from this assms show "ulp_exp (2 powi e) \<le> e" by (rule ulp_exp_le)
qed

lemma fl_overflow:
  assumes "2 ^ 1024 \<le> x"
  shows "fl x = PInf"
proof -
  have "rnd (2 powi 1024) = 2 powi 1024" by (rule rnd_pow) simp
  then have r: "rnd (2 ^ 1024) = (2 :: rat) ^ 1024" by simp
  from assms have "rnd (2 ^ 1024) \<le> rnd x" by (rule rnd_mono)
  with r have "2 ^ 1024 \<le> rnd x" by simp
  then show ?thesis by (simp add: fl_def)
qed

lemma rnd_normal:
  assumes "2 powi e \<le> \<bar>x\<bar>" and "\<bar>x\<bar> < 2 powi (e + 1)" and "- 1022 \<le> e"
    and "\<bar>x / 2 powi (e - 52) - of_int n\<bar> < 1 / 2"
  shows "rnd x = of_int n * 2 powi (e - 52)"
proof -
  from assms(1,2) have el: "elog x = e" by (rule elog_eqI)
  have "(2 :: rat) powi (- 1022) \<le> 2 powi e"
    by (rule power_int_increasing) (use assms(3) in simp_all)
  with assms(1) have "2 powi (- 1022) \<le> \<bar>x\<bar>" by linarith
  then have u: "ulp_exp x = e - 52" using el by (simp add: ulp_exp_def)
  from assms(4) have "rhe (x / 2 powi (e - 52)) = n" by (rule rhe_eqI)
  with u show ?thesis by (simp add: rnd_def)
qed

lemma rnd_subnormal:
  assumes "\<bar>x\<bar> < 2 powi (- 1022)" and "\<bar>x / 2 powi (- 1074) - of_int n\<bar> < 1 / 2"
  shows "rnd x = of_int n * 2 powi (- 1074)"
proof -
  from assms(1) have u: "ulp_exp x = - 1074" by (simp add: ulp_exp_def)
  from assms(2) have "rhe (x / 2 powi (- 1074)) = n" by (rule rhe_eqI)
  with u show ?thesis by (simp add: rnd_def)
qed

lemma fl_normal:
  assumes "2 powi e \<le> \<bar>x\<bar>" and "\<bar>x\<bar> < 2 powi (e + 1)" and "- 1022 \<le> e"
    and "\<bar>x / 2 powi (e - 52) - of_int n\<bar> < 1 / 2"
    and "r = of_int n * 2 powi (e - 52)" and "\<bar>r\<bar> < 2 ^ 1024"
  shows "fl x = Num r"
proof -
  from assms(1-4) have "rnd x = of_int n * 2 powi (e - 52)" by (rule rnd_normal)
  with assms(5) have "rnd x = r" by simp
  with assms(6) show ?thesis by (simp add: fl_finite)
qed

lemma fl_subnormal:
  assumes "\<bar>x\<bar> < 2 powi (- 1022)" and "\<bar>x / 2 powi (- 1074) - of_int n\<bar> < 1 / 2"
    and "r = of_int n * 2 powi (- 1074)"
  shows "fl x = Num r"
proof -
  from assms(1,2) have r: "rnd x = of_int n * 2 powi (- 1074)" by (rule rnd_subnormal)
  with assms(3) have rr: "rnd x = r" by simp
  have "\<bar>rnd x\<bar> \<le> \<bar>x\<bar> + \<bar>rnd x - x\<bar>" by linarith
  also have "\<dots> \<le> \<bar>x\<bar> + 2 powi ulp_exp x / 2" using rnd_error [of x] by simp
  also have "\<dots> < 2 powi (- 1022) + 2 powi (- 1074) / 2"
    using assms(1) by (simp add: ulp_exp_def)
  also have "\<dots> < 2 ^ 1024" by simp
  finally have "\<bar>rnd x\<bar> < 2 ^ 1024" .
  with rr show ?thesis by (simp add: fl_finite)
qed

lemma fl_exact:
  assumes "x = of_int m * 2 powi k" and "\<bar>m\<bar> < 2 ^ 53" and "- 1074 \<le> k" and "\<bar>x\<bar> < 2 ^ 1024"
  shows "fl x = Num x"
proof -
  have "\<bar>x\<bar> = of_int \<bar>m\<bar> * 2 powi k" by (simp add: assms(1) abs_mult)
  also have "\<dots> < of_int (2 ^ 53) * 2 powi k"
    using assms(2) by (simp only: mult_less_cancel_right_pos zero_less_power_int zero_less_numeral of_int_less_iff)
  also have "\<dots> = 2 powi (k + 53)" by (simp add: power_int_add)
  finally have "\<bar>x\<bar> < 2 powi (k + 53)" .
  from this assms(3) have "ulp_exp x \<le> k" by (rule ulp_exp_le)
  with assms(1) have "rnd x = x" by (rule rnd_exact)
  with assms(4) show ?thesis by (simp add: fl_finite)
qed

lemma fl_of_int: "\<bar>n\<bar> < 2 ^ 53 \<Longrightarrow> fl (of_int n) = Num (of_int n)"
proof (rule fl_exact [where m = n and k = 0])
  assume a: "\<bar>n\<bar> < 2 ^ 53"
  show "(of_int n :: rat) = of_int n * 2 powi 0" by simp
  show "\<bar>n\<bar> < 2 ^ 53" by (rule a)
  show "(- 1074 :: int) \<le> 0" by simp
  have "\<bar>of_int n :: rat\<bar> = of_int \<bar>n\<bar>" by simp
  also have "\<dots> < of_int (2 ^ 53)" using a by (simp only: of_int_less_iff)
  also have "\<dots> < (2 :: rat) ^ 1024" by simp
  finally show "\<bar>of_int n :: rat\<bar> < 2 ^ 1024" .
qed

lemma fl_met_running: "fl (98 / 10) = Num (2758454771764429 / 281474976710656)"
  by (rule fl_normal [where e = 3 and n = 5516909543528858]) simp_all

lemma fl_met_walking: "fl (38 / 10) = Num (4278419646001971 / 1125899906842624)"
  by (rule fl_normal [where e = 1 and n = 8556839292003942]) simp_all

lemma fl_met_cycling: "fl (75 / 10) = Num (15 / 2)"
  using fl_exact [where x = "15 / 2" and m = 15 and k = "- 1"] by simp

lemma fl_met_pushups: "fl 8 = Num 8"
  using fl_of_int [of 8] by simp

lemma fl_normal_tie:
  assumes "2 powi e \<le> \<bar>x\<bar>" and "\<bar>x\<bar> < 2 powi (e + 1)" and "- 1022 \<le> e"
    and "x / 2 powi (e - 52) = of_int n + 1 / 2"
    and "r = of_int (if even n then n else n + 1) * 2 powi (e - 52)" and "\<bar>r\<bar> < 2 ^ 1024"
  shows "fl x = Num r"
proof -
  from assms(1,2) have el: "elog x = e" by (rule elog_eqI)
  have "(2 :: rat) powi (- 1022) \<le> 2 powi e"
    by (rule power_int_increasing) (use assms(3) in simp_all)
  with assms(1) have "2 powi (- 1022) \<le> \<bar>x\<bar>" by linarith
  then have u: "ulp_exp x = e - 52" using el by (simp add: ulp_exp_def)
  have "rhe (x / 2 powi (e - 52)) = (if even n then n else n + 1)"
    by (simp only: assms(4) rhe_tie)
  with u assms(5) have "rnd x = r" by (simp add: rnd_def)
  with assms(6) show ?thesis by (simp add: fl_finite)
qed

lemma fl_zero: "fl 0 = Num 0"
  using fl_of_int [of 0] by simp

lemma fl_one: "fl 1 = Num 1"
  using fl_of_int [of 1] by simp

lemma fl_numeral: "(numeral k :: int) < 2 ^ 53 \<Longrightarrow> fl (numeral k) = Num (numeral k)"
  using fl_of_int [of "numeral k"] by simp

lemma fl_tenth: "fl (1 / 10) = Num (3602879701896397 / 36028797018963968)"
  by (rule fl_normal [where e = "- 4" and n = 7205759403792794]) simp_all

subsection \<open>The error of a rounding\<close>









section \<open>Properties of the derivation engine\<close>

lemma toLowerCase_keys:
  "toLowerCase ''running'' = ''running''"
  "toLowerCase ''walking'' = ''walking''"
  "toLowerCase ''cycling'' = ''cycling''"
  "toLowerCase ''pushups'' = ''pushups''"
  by (simp_all add: toLowerCase_def toLowerCase_char_def)

lemma calculateCalories_Own:
  assumes "MET_VALUES (toLowerCase ty) = Own m" and "truthy_number m"
    and "truthy_number d" and "truthy_number w"
  shows "calculateCalories ty (Some d) (Some w)
    = Calories (Math_round (fmul (fmul m w) (fdiv d (Num 60))))"
  using assms by (simp add: calculateCalories_def falsy_property_def truthy_def)

text \<open>The four coefficients are positive doubles.\<close>

lemma coefficient_positive:
  assumes "(ty, c) \<in> set [(''running'', 98 / 10), (''walking'', 38 / 10),
                          (''cycling'', 75 / 10), (''pushups'', 8)]"
  shows "\<exists>m. 0 < m \<and> fl c = Num m \<and> MET_VALUES (toLowerCase ty) = Own (Num m)"
proof -
  from assms consider "ty = ''running''" "c = 98 / 10" | "ty = ''walking''" "c = 38 / 10"
    | "ty = ''cycling''" "c = 75 / 10" | "ty = ''pushups''" "c = 8"
    by auto
  then show ?thesis
  proof cases
    case 1
    show ?thesis
      unfolding 1 using fl_met_running
      by (intro exI [of _ "2758454771764429 / 281474976710656"])
        (simp add: toLowerCase_keys MET_VALUES_def)
  next
    case 2
    show ?thesis
      unfolding 2 using fl_met_walking
      by (intro exI [of _ "4278419646001971 / 1125899906842624"])
        (simp add: toLowerCase_keys MET_VALUES_def)
  next
    case 3
    show ?thesis
      unfolding 3 using fl_met_cycling
      by (intro exI [of _ "15 / 2"]) (simp add: toLowerCase_keys MET_VALUES_def)
  next
    case 4
    show ?thesis
      unfolding 4 using fl_met_pushups
      by (intro exI [of _ 8]) (simp add: toLowerCase_keys MET_VALUES_def)
  qed
qed

lemma Math_round_of_int: "Math_round (Num (of_int n)) = Num (of_int n)"
proof -
  have "\<lfloor>(of_int n :: rat) + 1 / 2\<rfloor> = n" by (simp add: floor_eq_iff)
  then show ?thesis by simp
qed



text \<open>
  C1. For each of the four activity types of the coefficient table (running 9.8, walking
  3.8, cycling 7.5, pushups 8.0), a positive duration \<open>d\<close> in minutes and a positive weight
  \<open>w\<close> in kilograms, \<open>calculateCalories\<close> returns the coefficient times \<open>w\<close> times
  \<open>d / 60\<close>, rounded: the coefficient is the double of its decimal, and the two products
  and the quotient are those of doubles, each rounded to the nearest double. At walking,
  11 minutes and 150 kilograms the result is 104: the product of the doubles is just
  below 104.5.
\<close>

theorem calculateCalories_formula:
  assumes "(ty, c) \<in> set [(''running'', 98 / 10), (''walking'', 38 / 10),
                          (''cycling'', 75 / 10), (''pushups'', 8)]"
    and "0 < d" and "0 < w"
  shows "calculateCalories ty (Some (Num d)) (Some (Num w))
    = Calories (Math_round (fmul (fmul (fl c) (Num w)) (fdiv (Num d) (Num 60))))"
proof -
  from assms(1) obtain m where "0 < m" and "fl c = Num m"
    and "MET_VALUES (toLowerCase ty) = Own (Num m)"
    using coefficient_positive by blast
  with assms(2,3) show ?thesis
    by (simp add: calculateCalories_Own)
qed

theorem calculateCalories_formula_witness:
  "(''walking'', 38 / 10) \<in> set [(''running'', 98 / 10), (''walking'', 38 / 10),
                                  (''cycling'', 75 / 10), (''pushups'', 8 :: rat)]
   \<and> (0::rat) < 11 \<and> (0::rat) < 150
   \<and> calculateCalories ''walking'' (Some (Num 11)) (Some (Num 150)) = Calories (Num 104)"
proof -
  have "fl (4278419646001971 / 1125899906842624 * 150) = Num 570"
    by (rule fl_normal [where e = 9 and n = 5013773022658560]) simp_all
  then have a: "fmul (Num (4278419646001971 / 1125899906842624)) (Num 150) = Num 570"
    by (simp only: fmul.simps)
  have "fl (11 / 60) = Num (6605279453476727 / 36028797018963968)"
    by (rule fl_normal [where e = "- 3" and n = 6605279453476727]) simp_all
  then have b: "fdiv (Num 11) (Num 60) = Num (6605279453476727 / 36028797018963968)"
    by simp
  have "fl (570 * (6605279453476727 / 36028797018963968))
      = Num (7353533766565887 / 70368744177664)"
    by (rule fl_normal [where e = 6 and n = 7353533766565887]) simp_all
  then have c: "fmul (Num 570) (Num (6605279453476727 / 36028797018963968))
      = Num (7353533766565887 / 70368744177664)"
    by (simp only: fmul.simps)
  have r: "Math_round (Num (7353533766565887 / 70368744177664)) = Num 104"
    by (simp add: floor_eq_iff)
  have "calculateCalories ''walking'' (Some (Num 11)) (Some (Num 150))
      = Calories (Math_round (fmul (fmul (fl (38 / 10)) (Num 150)) (fdiv (Num 11) (Num 60))))"
    by (rule calculateCalories_formula) simp_all
  then have "calculateCalories ''walking'' (Some (Num 11)) (Some (Num 150))
      = Calories (Num 104)"
    by (simp only: fl_met_walking a b c r)
  then show ?thesis by simp
qed

text \<open>
  C2, as stated, at a negative weight: the guard of \<open>calculateCalories\<close> tests
  truthiness, and a negative number is truthy, so the product is computed and rounded.
\<close>

theorem calculateCalories_negative_counterexample:
  "(- 70 :: rat) \<le> 0
   \<and> calculateCalories ''running'' (Some (Num 30)) (Some (Num (- 70))) = Calories (Num (- 343))
   \<and> calculateCalories ''running'' (Some (Num 30)) (Some (Num (- 70))) \<noteq> Null"
proof -
  have "fl (2758454771764429 / 281474976710656 * - 70) = Num (- 686)"
    by (rule fl_normal [where e = 9 and n = "- 6034119813234688"]) simp_all
  then have a: "fmul (Num (2758454771764429 / 281474976710656)) (Num (- 70)) = Num (- 686)"
    by (simp only: fmul.simps)
  have "fl (1 / 2) = Num (1 / 2)"
    by (rule fl_exact [where m = 1 and k = "- 1"]) simp_all
  then have b: "fdiv (Num 30) (Num 60) = Num (1 / 2)"
    by simp
  have "fl (- 343) = Num (- 343)"
    using fl_of_int [of "- 343"] by simp
  then have c: "fmul (Num (- 686)) (Num (1 / 2)) = Num (- 343)"
    by simp
  have r: "Math_round (Num (- 343)) = Num (- 343)"
    using Math_round_of_int [of "- 343"] by simp
  have "calculateCalories ''running'' (Some (Num 30)) (Some (Num (- 70)))
      = Calories (Math_round (fmul (fmul (fl (98 / 10)) (Num (- 70))) (fdiv (Num 30) (Num 60))))"
    using fl_met_running
    by (simp add: calculateCalories_def MET_VALUES_def falsy_property_def truthy_def
        toLowerCase_keys del: fmul.simps fdiv.simps Math_round.simps)
  then have "calculateCalories ''running'' (Some (Num 30)) (Some (Num (- 70)))
      = Calories (Num (- 343))"
    by (simp only: fl_met_running a b c r)
  then show ?thesis by simp
qed

text \<open>
  C2, amended. When the lower-cased activity type names no property of the coefficient
  table (none of its four keys, and not \<open>constructor\<close> or \<open>__proto__\<close>), or the
  duration or the weight is missing or zero, \<open>calculateCalories\<close> returns \<open>null\<close>.
\<close>

theorem calculateCalories_null:
  assumes "toLowerCase ty \<notin> {''running'', ''walking'', ''cycling'', ''pushups'',
                               ''constructor'', ''__proto__''}
           \<or> dur = None \<or> dur = Some (Num 0) \<or> wt = None \<or> wt = Some (Num 0)"
  shows "calculateCalories ty dur wt = Null"
proof -
  from assms have "falsy_property (MET_VALUES (toLowerCase ty))
      \<or> \<not> truthy wt \<or> \<not> truthy dur"
    by (auto simp: MET_VALUES_def falsy_property_def truthy_def)
  then show ?thesis
    by (auto simp: calculateCalories_def Let_def)
qed

theorem calculateCalories_null_witness:
  "toLowerCase ''Swimming'' \<notin> {''running'', ''walking'', ''cycling'', ''pushups'',
                                    ''constructor'', ''__proto__''}
   \<and> calculateCalories ''Swimming'' (Some (Num 30)) (Some (Num 70)) = Null
   \<and> calculateCalories ''running'' (Some (Num 30)) None = Null
   \<and> calculateCalories ''running'' (Some (Num 0)) (Some (Num 70)) = Null"
proof -
  have k: "toLowerCase ''Swimming'' \<notin> {''running'', ''walking'', ''cycling'', ''pushups'',
                                          ''constructor'', ''__proto__''}"
    by (simp add: toLowerCase_def toLowerCase_char_def)
  show ?thesis
    using k calculateCalories_null [of "''Swimming''" "Some (Num 30)" "Some (Num 70)"]
      calculateCalories_null [of "''running''" "Some (Num 30)" None]
      calculateCalories_null [of "''running''" "Some (Num 0)" "Some (Num 70)"]
    by simp
qed

text \<open>
  The inherited property names, which the amended C2 leaves out: the lookup yields an
  object, the guard passes, and the rounded product is \<open>NaN\<close>, not \<open>null\<close>.
\<close>

lemma calculateCalories_inherited:
  "calculateCalories ''constructor'' (Some (Num 30)) (Some (Num 70)) = Calories NaN"
  by (simp add: calculateCalories_def MET_VALUES_def falsy_property_def truthy_def
      toLowerCase_def toLowerCase_char_def)

text \<open>
  C9, as stated, at the weight \<open>2 ^ 1023\<close> and the durations \<open>2 powi (- 1074)\<close>, the
  least positive double, and 1: the coefficient times the weight overflows to
  \<open>Infinity\<close>; the first duration over 60 underflows to zero, and \<open>Infinity\<close> times zero
  is \<open>NaN\<close>, which is not at most the \<open>Infinity\<close> of the second call.
\<close>

theorem calculateCalories_monotone_counterexample:
  "double (2 ^ 1023) \<and> double (1 / 2 ^ 1074) \<and> double 1
   \<and> (0 :: rat) < 2 ^ 1023 \<and> (0 :: rat) < 1 / 2 ^ 1074 \<and> (1 / 2 ^ 1074 :: rat) \<le> 1
   \<and> calculateCalories ''running'' (Some (Num (1 / 2 ^ 1074))) (Some (Num (2 ^ 1023)))
       = Calories NaN
   \<and> calculateCalories ''running'' (Some (Num 1)) (Some (Num (2 ^ 1023))) = Calories PInf
   \<and> \<not> fle NaN PInf"
proof -
  have d1: "double (2 ^ 1023)"
    unfolding double_def by (rule fl_exact [where m = 1 and k = 1023]) simp_all
  have d2: "double (1 / 2 ^ 1074)"
    unfolding double_def by (rule fl_exact [where m = 1 and k = "- 1074"]) simp_all
  have d3: "double 1"
    unfolding double_def using fl_of_int [of 1] by simp
  have "fl (2758454771764429 / 281474976710656 * 2 ^ 1023) = PInf"
    by (rule fl_overflow) simp
  then have a: "fmul (Num (2758454771764429 / 281474976710656)) (Num (2 ^ 1023)) = PInf"
    by (simp only: fmul.simps)
  have "fl (1 / 2 ^ 1074 / 60) = Num 0"
    by (rule fl_subnormal [where n = 0]) simp_all
  then have b1: "fdiv (Num (1 / 2 ^ 1074)) (Num 60) = Num 0"
    by (simp del: power_numeral)
  have "fl (1 / 60) = Num (4803839602528529 / 288230376151711744)"
    by (rule fl_normal [where e = "- 6" and n = 4803839602528529]) simp_all
  then have b2: "fdiv (Num 1) (Num 60) = Num (4803839602528529 / 288230376151711744)"
    by simp
  have m: "MET_VALUES (toLowerCase ''running'') = Own (Num (2758454771764429 / 281474976710656))"
    using fl_met_running by (simp add: MET_VALUES_def toLowerCase_keys)
  have "calculateCalories ''running'' (Some (Num (1 / 2 ^ 1074))) (Some (Num (2 ^ 1023)))
      = Calories (Math_round (fmul (fmul (Num (2758454771764429 / 281474976710656))
          (Num (2 ^ 1023))) (fdiv (Num (1 / 2 ^ 1074)) (Num 60))))"
    using m by (rule calculateCalories_Own) simp_all
  then have "calculateCalories ''running'' (Some (Num (1 / 2 ^ 1074)))
      (Some (Num (2 ^ 1023))) = Calories (Math_round (fmul PInf (Num 0)))"
    by (simp only: a b1)
  then have c1: "calculateCalories ''running'' (Some (Num (1 / 2 ^ 1074)))
      (Some (Num (2 ^ 1023))) = Calories NaN"
    by simp
  have "calculateCalories ''running'' (Some (Num 1)) (Some (Num (2 ^ 1023)))
      = Calories (Math_round (fmul (fmul (Num (2758454771764429 / 281474976710656))
          (Num (2 ^ 1023))) (fdiv (Num 1) (Num 60))))"
    using m by (rule calculateCalories_Own) simp_all
  then have "calculateCalories ''running'' (Some (Num 1)) (Some (Num (2 ^ 1023)))
      = Calories (Math_round (fmul PInf (Num (4803839602528529 / 288230376151711744))))"
    by (simp only: a b2)
  then have c2: "calculateCalories ''running'' (Some (Num 1)) (Some (Num (2 ^ 1023)))
      = Calories PInf"
    by simp
  have "(0 :: rat) < 2 ^ 1023 \<and> (0 :: rat) < 1 / 2 ^ 1074 \<and> (1 / 2 ^ 1074 :: rat) \<le> 1"
    by simp
  with d1 d2 d3 c1 c2 show ?thesis
    by (simp only: fle.simps not_False_eq_True simp_thms)
qed



section \<open>Properties of \<open>currentStreak\<close>\<close>

lemma keys_push_doc: "fst ` set (push_doc k d m) = insert k (fst ` set m)"
  by (induction k d m rule: push_doc.induct) auto

lemma keys_fold_push:
  "fst ` set (fold (\<lambda>d dateMap. push_doc (f d) d dateMap) docs m) = f ` set docs \<union> fst ` set m"
  by (induction docs arbitrary: m) (auto simp: keys_push_doc)

lemma keys_group_by_date:
  "fst ` set (group_by_date tz docs) = (\<lambda>d. midnight tz (doc.date d)) ` set docs"
  by (simp add: group_by_date_def keys_fold_push)

lemma midnight_localDay: "midnight tz t = localDay tz t * msPerDay - tz"
  unfolding midnight_def localDay_def
  using div_mult_mod_eq [of "t + tz" msPerDay] by linarith

lemma midnight_eq_iff:
  "midnight tz t = midnight tz now - int k * msPerDay \<longleftrightarrow> localDay tz t = localDay tz now - int k"
proof -
  have "midnight tz now - int k * msPerDay = (localDay tz now - int k) * msPerDay - tz"
    by (simp add: midnight_localDay algebra_simps)
  then show ?thesis
    by (auto simp: midnight_localDay msPerDay_def)
qed

lemma key_logged:
  "midnight tz now - int k * msPerDay \<in> fst ` set (group_by_date tz docs)
     \<longleftrightarrow> logged tz docs (localDay tz now - int k)"
  unfolding keys_group_by_date logged_def image_iff
  by (metis midnight_eq_iff)

lemma streak_loop_run:
  "\<exists>n. streak_loop m c s = s + n
        \<and> (\<forall>k<n. c - int k * msPerDay \<in> fst ` set m)
        \<and> c - int n * msPerDay \<notin> fst ` set m"
proof (induction m c s rule: streak_loop.induct)
  case (1 m c s)
  show ?case
  proof (cases "c \<in> fst ` set m")
    case False
    then have "streak_loop m c s = s + 0"
      by (simp add: streak_loop.simps [of m c s])
    with False show ?thesis
      by (intro exI [of _ 0]) simp
  next
    case True
    from "1.IH" [OF True] obtain n
      where n: "streak_loop m (c - msPerDay) (s + 1) = s + 1 + n"
        and cov: "\<forall>k<n. c - msPerDay - int k * msPerDay \<in> fst ` set m"
        and gap: "c - msPerDay - int n * msPerDay \<notin> fst ` set m"
      by blast
    have "streak_loop m c s = s + Suc n"
      using True n by (simp add: streak_loop.simps [of m c s])
    moreover have "\<forall>k<Suc n. c - int k * msPerDay \<in> fst ` set m"
    proof (intro allI impI)
      fix k assume "k < Suc n"
      show "c - int k * msPerDay \<in> fst ` set m"
      proof (cases k)
        case 0
        with True show ?thesis by simp
      next
        case (Suc j)
        with \<open>k < Suc n\<close> have "j < n" by simp
        with cov have "c - msPerDay - int j * msPerDay \<in> fst ` set m" by blast
        moreover have "int k * msPerDay = msPerDay + int j * msPerDay"
          using Suc by (simp add: algebra_simps)
        then have "c - int k * msPerDay = c - msPerDay - int j * msPerDay"
          by linarith
        ultimately show ?thesis by metis
      qed
    qed
    moreover have "c - int (Suc n) * msPerDay \<notin> fst ` set m"
    proof -
      have "int (Suc n) * msPerDay = msPerDay + int n * msPerDay"
        by (simp add: algebra_simps)
      then have "c - int (Suc n) * msPerDay = c - msPerDay - int n * msPerDay"
        by linarith
      with gap show ?thesis by metis
    qed
    ultimately show ?thesis by blast
  qed
qed

lemma currentStreak_run:
  "(\<forall>k<currentStreak tz now docs. logged tz docs (localDay tz now - int k))
   \<and> \<not> logged tz docs (localDay tz now - int (currentStreak tz now docs))"
proof (cases "docs = []")
  case True
  then show ?thesis
    by (simp add: currentStreak_def logged_def)
next
  case False
  from streak_loop_run [of "group_by_date tz docs" "midnight tz now" 0] obtain n
    where "streak_loop (group_by_date tz docs) (midnight tz now) 0 = n"
      and "\<forall>k<n. midnight tz now - int k * msPerDay \<in> fst ` set (group_by_date tz docs)"
      and "midnight tz now - int n * msPerDay \<notin> fst ` set (group_by_date tz docs)"
    by auto
  with False show ?thesis
    by (simp add: currentStreak_def key_logged)
qed

text \<open>
  C3. The streak of an empty collection is 0; it is 1 when today has an entry and
  yesterday has none; it is 0 when yesterday has an entry and today has none; and it is
  \<open>n\<close> exactly when each of the \<open>n\<close> days counted backward from today has an entry and
  the day before them has none.
\<close>

theorem currentStreak_spec:
  "currentStreak tz now ([] :: 'a doc_scheme list) = 0
   \<and> (logged tz (docs :: 'a doc_scheme list) (localDay tz now)
          \<and> \<not> logged tz docs (localDay tz now - 1)
        \<longrightarrow> currentStreak tz now docs = 1)
   \<and> (logged tz docs (localDay tz now - 1) \<and> \<not> logged tz docs (localDay tz now)
        \<longrightarrow> currentStreak tz now docs = 0)
   \<and> (currentStreak tz now docs = n \<longleftrightarrow>
        (\<forall>k<n. logged tz docs (localDay tz now - int k))
        \<and> \<not> logged tz docs (localDay tz now - int n))"
proof -
  let ?s = "currentStreak tz now docs"
  let ?L = "\<lambda>k. logged tz docs (localDay tz now - int k)"
  have cov: "\<forall>k<?s. ?L k" and gap: "\<not> ?L ?s"
    using currentStreak_run [of tz now docs] by simp_all
  have uniq: "?s = n" if "\<forall>k<n. ?L k" and "\<not> ?L n" for n
  proof (rule ccontr)
    assume "?s \<noteq> n"
    then consider "?s < n" | "n < ?s" by linarith
    then show False
    proof cases
      case 1
      with that(1) gap show False by blast
    next
      case 2
      with cov that(2) show False by blast
    qed
  qed
  have a: "currentStreak tz now ([] :: 'a doc_scheme list) = 0"
    by (simp add: currentStreak_def)
  have b: "?s = 1" if "logged tz docs (localDay tz now)" "\<not> logged tz docs (localDay tz now - 1)"
    using that uniq [of 1] by simp
  have c: "?s = 0" if "\<not> logged tz docs (localDay tz now)"
    using that uniq [of 0] by simp
  have d: "?s = n \<longleftrightarrow> (\<forall>k<n. ?L k) \<and> \<not> ?L n"
    using cov gap uniq [of n] by blast
  from a b c d show ?thesis by blast
qed

theorem currentStreak_spec_witness:
  "logged 0 [\<lparr>doc.oid = 1, doc.userId = 7, doc.date = 3 * 86400000 + 5000\<rparr>,
             \<lparr>doc.oid = 2, doc.userId = 7, doc.date = 86400000 + 100\<rparr>]
     (localDay 0 (3 * 86400000 + 777))
   \<and> \<not> logged 0 [\<lparr>doc.oid = 1, doc.userId = 7, doc.date = 3 * 86400000 + 5000\<rparr>,
                  \<lparr>doc.oid = 2, doc.userId = 7, doc.date = 86400000 + 100\<rparr>]
         (localDay 0 (3 * 86400000 + 777) - 1)
   \<and> currentStreak 0 (3 * 86400000 + 777)
         [\<lparr>doc.oid = 1, doc.userId = 7, doc.date = 3 * 86400000 + 5000\<rparr>,
          \<lparr>doc.oid = 2, doc.userId = 7, doc.date = 86400000 + 100\<rparr>] = 1
   \<and> logged 0 [\<lparr>doc.oid = 1, doc.userId = 7, doc.date = 3 * 86400000 + 5000\<rparr>]
         (localDay 0 (4 * 86400000 + 777) - 1)
   \<and> \<not> logged 0 [\<lparr>doc.oid = 1, doc.userId = 7, doc.date = 3 * 86400000 + 5000\<rparr>]
         (localDay 0 (4 * 86400000 + 777))
   \<and> currentStreak 0 (4 * 86400000 + 777)
         [\<lparr>doc.oid = 1, doc.userId = 7, doc.date = 3 * 86400000 + 5000\<rparr>] = 0"
proof -
  show ?thesis
    using currentStreak_spec [of 0 "3 * 86400000 + 777"
        "[\<lparr>doc.oid = 1, doc.userId = 7, doc.date = 3 * 86400000 + 5000\<rparr>,
          \<lparr>doc.oid = 2, doc.userId = 7, doc.date = 86400000 + 100\<rparr>]" 1]
      currentStreak_spec [of 0 "4 * 86400000 + 777"
        "[\<lparr>doc.oid = 1, doc.userId = 7, doc.date = 3 * 86400000 + 5000\<rparr>]" 0]
    by (simp add: logged_def localDay_def msPerDay_def)
qed

section \<open>Properties of the macro percentages\<close>










text \<open>
  C4, as stated, at 0, 17 and 23 grams: the program divides first and multiplies by 100
  afterwards, and the quotient 23 / 40 is the double just below 0.575, so that the
  percentage of fat is 57, whereas 100 times 23 over 40 is 57.5 and rounds to 58, in
  exact arithmetic and in that of the program alike.
\<close>

theorem macro_percentages_counterexample:
  "calculateMacroPercentages (Num 0) (Num 17) (Num 23) = (Num 0, Num 43, Num 57)
   \<and> spec_percentage (Num 23) (fadd (fadd (Num 0) (Num 17)) (Num 23)) = Num 58
   \<and> Math_round (Num (100 * 23 / (0 + 17 + 23))) = Num 58"
proof -
  have t: "fadd (fadd (Num 0) (Num 17)) (Num 23) = Num 40"
    by (simp add: fl_numeral)
  have "fl (17 / 40) = Num (7656119366529843 / 18014398509481984)"
    by (rule fl_normal [where e = "- 2" and n = 7656119366529843]) simp_all
  then have c1: "fdiv (Num 17) (Num 40) = Num (7656119366529843 / 18014398509481984)"
    by simp
  have "fl (7656119366529843 / 18014398509481984 * 100) = Num (85 / 2)"
    by (rule fl_normal [where e = 5 and n = 5981343255101440]) simp_all
  then have c2: "fmul (Num (7656119366529843 / 18014398509481984)) (Num 100) = Num (85 / 2)"
    by (simp only: fmul.simps)
  have "fl (23 / 40) = Num (2589569785738035 / 4503599627370496)"
    by (rule fl_normal [where e = "- 1" and n = 5179139571476070]) simp_all
  then have f1: "fdiv (Num 23) (Num 40) = Num (2589569785738035 / 4503599627370496)"
    by simp
  have "fl (2589569785738035 / 4503599627370496 * 100)
      = Num (8092405580431359 / 140737488355328)"
    by (rule fl_normal [where e = 5 and n = 8092405580431359]) simp_all
  then have f2: "fmul (Num (2589569785738035 / 4503599627370496)) (Num 100)
      = Num (8092405580431359 / 140737488355328)"
    by (simp only: fmul.simps)
  have p: "fmul (fdiv (Num 0) (Num 40)) (Num 100) = Num 0"
    by (simp add: fl_zero)
  have r: "Math_round (Num 0) = Num 0" "Math_round (Num (85 / 2)) = Num 43"
    "Math_round (Num (8092405580431359 / 140737488355328)) = Num 57"
    "Math_round (Num (115 / 2)) = Num 58"
    by (simp_all add: floor_eq_iff)
  have "calculateMacroPercentages (Num 0) (Num 17) (Num 23)
      = (Math_round (fmul (fdiv (Num 0) (Num 40)) (Num 100)),
         Math_round (fmul (fdiv (Num 17) (Num 40)) (Num 100)),
         Math_round (fmul (fdiv (Num 23) (Num 40)) (Num 100)))"
    using t by (simp add: calculateMacroPercentages_def Let_def
        del: fadd.simps fmul.simps fdiv.simps Math_round.simps)
  then have 1: "calculateMacroPercentages (Num 0) (Num 17) (Num 23) = (Num 0, Num 43, Num 57)"
    by (simp only: p c1 c2 f1 f2 r)
  have "fl (115 / 2) = Num (115 / 2)"
    by (rule fl_exact [where m = 115 and k = "- 1"]) simp_all
  then have "fdiv (fmul (Num 100) (Num 23)) (Num 40) = Num (115 / 2)"
    by (simp add: fl_numeral)
  then have 2: "spec_percentage (Num 23) (fadd (fadd (Num 0) (Num 17)) (Num 23)) = Num 58"
    by (simp only: spec_percentage_def t r)
  have 3: "Math_round (Num (100 * 23 / (0 + 17 + 23))) = Num 58"
    using r(4) by simp
  from 1 2 3 show ?thesis by (intro conjI)
qed



section \<open>Properties of the forecast\<close>

lemma accumulate_simp:
  "accumulate (k, y) (a, b, c, d)
   = (fadd a (Num (of_nat k)), fadd b y, fadd c (fmul (Num (of_nat k)) y),
      fadd d (fmul (Num (of_nat k)) (Num (of_nat k))))"
  by (simp add: accumulate_def Let_def)

lemma fsum_cong: "(\<And>i. i < n \<Longrightarrow> f i = g i) \<Longrightarrow> fsum f n = fsum g n"
  by (induction n) simp_all

lemma regression_sums_snoc:
  "regression_sums (ys @ [y]) = accumulate (length ys, y) (regression_sums ys)"
  by (simp add: regression_sums_def enumerate_append_eq)

lemma regression_sums_eq:
  "regression_sums ys
   = (fsum (\<lambda>i. Num (of_nat i)) (length ys), fsum (\<lambda>i. ys ! i) (length ys),
      fsum (\<lambda>i. fmul (Num (of_nat i)) (ys ! i)) (length ys),
      fsum (\<lambda>i. fmul (Num (of_nat i)) (Num (of_nat i))) (length ys))"
proof (induction ys rule: rev_induct)
  case Nil
  then show ?case by (simp add: regression_sums_def)
next
  case (snoc y ys)
  have 1: "fsum (\<lambda>i. (ys @ [y]) ! i) (length ys) = fsum (\<lambda>i. ys ! i) (length ys)"
    by (rule fsum_cong) (simp add: nth_append)
  have 2: "fsum (\<lambda>i. fmul (Num (of_nat i)) ((ys @ [y]) ! i)) (length ys)
      = fsum (\<lambda>i. fmul (Num (of_nat i)) (ys ! i)) (length ys)"
    by (rule fsum_cong) (simp add: nth_append)
  show ?case
    by (simp add: regression_sums_snoc snoc.IH accumulate_simp 1 2
        del: fadd.simps fmul.simps)
qed

lemma slope_ols: "slope ys = ols_slope ys"
  by (simp only: slope_def ols_slope_def regression_sums_eq Let_def prod.case)

lemma weightData_sorted: "sorted (map doc.date (weightData now user Progress))"
  by (simp add: weightData_def Let_def)

lemma weightData_set:
  "set (weightData now user Progress)
   = {p \<in> set Progress. doc.userId p = user \<and> now - 30 * msPerDay \<le> doc.date p}"
  by (auto simp: weightData_def Let_def)

lemma weightData_length:
  "length (weightData now user Progress)
   = length (filter (\<lambda>p. doc.userId p = user \<and> now - 30 * msPerDay \<le> doc.date p) Progress)"
  by (simp add: weightData_def Let_def)

lemma slope_example: "slope [Num 70, Num 72] = Num 2"
  by (simp add: slope_def regression_sums_def accumulate_simp fsub_def fl_zero fl_one
      fl_numeral)

text \<open>
  C5. The samples of \<open>getForecast\<close> are the user's entries of the last thirty days in
  chronological order, and with at least two of them the response carries the
  least-squares slope of the weights over their zero-based positions, times 7 and
  times 30, each with two decimals; every operation of the formula is that of the
  program's numbers, rounded to the nearest double. The samples 70 and 72 give slope 2,
  weekly 14 and monthly 60.
\<close>

theorem forecast_slope:
  "(let wd = weightData now user Progress;
        ys = map progress.weight wd;
        weekly = fmul (ols_slope ys) (Num 7);
        monthly = fmul (ols_slope ys) (Num 30)
    in sorted (map doc.date wd)
       \<and> set wd = {p \<in> set Progress. doc.userId p = user \<and> now - 30 * msPerDay \<le> doc.date p}
       \<and> length wd
           = length (filter (\<lambda>p. doc.userId p = user \<and> now - 30 * msPerDay \<le> doc.date p)
               Progress)
       \<and> slope ys = ols_slope ys
       \<and> (2 \<le> length wd \<longrightarrow>
            getForecast now user Progress
              = Forecast (progress.weight (last wd)) (toFixed 2 weekly) (toFixed 2 monthly)
                  (if fless (Math_abs weekly) (fl (1 / 10)) then Stable
                   else if fless (Num 0) weekly then Gain (toFixed 1 (Math_abs monthly))
                   else Lose (toFixed 1 (Math_abs monthly)))
                  (length wd)))
   \<and> slope [Num 70, Num 72] = Num 2
   \<and> getForecast (40 * 86400000) 7
        [\<lparr>doc.oid = 2, doc.userId = 7, doc.date = 39 * 86400000, progress.weight = Num 72\<rparr>,
         \<lparr>doc.oid = 3, doc.userId = 8, doc.date = 38 * 86400000 + 500, progress.weight = Num 90\<rparr>,
         \<lparr>doc.oid = 1, doc.userId = 7, doc.date = 38 * 86400000, progress.weight = Num 70\<rparr>]
      = Forecast (Num 72) (Num 14) (Num 60) (Gain (Num 60)) 2"
proof -
  have general: "getForecast now user Progress
      = Forecast (progress.weight (last (weightData now user Progress)))
          (toFixed 2 (fmul (ols_slope (map progress.weight (weightData now user Progress)))
             (Num 7)))
          (toFixed 2 (fmul (ols_slope (map progress.weight (weightData now user Progress)))
             (Num 30)))
          (if fless (Math_abs (fmul (ols_slope (map progress.weight
                 (weightData now user Progress))) (Num 7))) (fl (1 / 10))
           then Stable
           else if fless (Num 0) (fmul (ols_slope (map progress.weight
                 (weightData now user Progress))) (Num 7))
           then Gain (toFixed 1 (Math_abs (fmul (ols_slope (map progress.weight
                 (weightData now user Progress))) (Num 30))))
           else Lose (toFixed 1 (Math_abs (fmul (ols_slope (map progress.weight
                 (weightData now user Progress))) (Num 30)))))
          (length (weightData now user Progress))"
    if "2 \<le> length (weightData now user Progress)"
  proof -
    from that have "\<not> length (weightData now user Progress) < 2" by simp
    then show ?thesis
      by (simp add: getForecast_def forecast_of_def Let_def weeklyChange_def
          monthlyChange_def slope_ols del: toFixed.simps fmul.simps One_nat_def)
  qed
  have t: "toFixed 2 (Num 14) = Num 14" "toFixed 2 (Num 60) = Num 60"
    "toFixed (Suc 0) (Num 60) = Num 60"
    by (simp_all add: floor_eq_iff)
  have example: "slope [Num 70, Num 72] = Num 2"
    by (rule slope_example)
  have "weightData (40 * 86400000) 7
        [\<lparr>doc.oid = 2, doc.userId = 7, doc.date = 39 * 86400000, progress.weight = Num 72\<rparr>,
         \<lparr>doc.oid = 3, doc.userId = 8, doc.date = 38 * 86400000 + 500, progress.weight = Num 90\<rparr>,
         \<lparr>doc.oid = 1, doc.userId = 7, doc.date = 38 * 86400000, progress.weight = Num 70\<rparr>]
      = [\<lparr>doc.oid = 1, doc.userId = 7, doc.date = 38 * 86400000, progress.weight = Num 70\<rparr>,
         \<lparr>doc.oid = 2, doc.userId = 7, doc.date = 39 * 86400000, progress.weight = Num 72\<rparr>]"
    by (simp add: weightData_def msPerDay_def)
  then have "getForecast (40 * 86400000) 7
        [\<lparr>doc.oid = 2, doc.userId = 7, doc.date = 39 * 86400000, progress.weight = Num 72\<rparr>,
         \<lparr>doc.oid = 3, doc.userId = 8, doc.date = 38 * 86400000 + 500, progress.weight = Num 90\<rparr>,
         \<lparr>doc.oid = 1, doc.userId = 7, doc.date = 38 * 86400000, progress.weight = Num 70\<rparr>]
      = Forecast (Num 72) (Num 14) (Num 60) (Gain (Num 60)) 2"
    by (simp add: getForecast_def forecast_of_def weeklyChange_def monthlyChange_def
        slope_example fl_numeral fl_tenth floor_eq_iff)
  with example show ?thesis
    unfolding Let_def
    by (intro conjI impI weightData_sorted weightData_set weightData_length slope_ols
        general)
qed

text \<open>
  An instance: the weights 69.9, 70 and 69.95, stored out of order. The sum of the first
  two is a tie between two doubles, and the slope is the double just below 0.025, so
  that the response carries 0.17 and 0.75 and its message 0.7.
\<close>

theorem forecast_slope_witness:
  "2 \<le> length (weightData (40 * 86400000) 7
        [\<lparr>doc.oid = 3, doc.userId = 7, doc.date = 39 * 86400000,
          progress.weight = Num (4922293655227597 / 70368744177664)\<rparr>,
         \<lparr>doc.oid = 1, doc.userId = 7, doc.date = 37 * 86400000,
          progress.weight = Num (2459387609009357 / 35184372088832)\<rparr>,
         \<lparr>doc.oid = 2, doc.userId = 7, doc.date = 38 * 86400000, progress.weight = Num 70\<rparr>])
   \<and> fl (699 / 10) = Num (2459387609009357 / 35184372088832)
   \<and> fl (6995 / 100) = Num (4922293655227597 / 70368744177664)
   \<and> getForecast (40 * 86400000) 7
        [\<lparr>doc.oid = 3, doc.userId = 7, doc.date = 39 * 86400000,
          progress.weight = Num (4922293655227597 / 70368744177664)\<rparr>,
         \<lparr>doc.oid = 1, doc.userId = 7, doc.date = 37 * 86400000,
          progress.weight = Num (2459387609009357 / 35184372088832)\<rparr>,
         \<lparr>doc.oid = 2, doc.userId = 7, doc.date = 38 * 86400000, progress.weight = Num 70\<rparr>]
      = Forecast (Num (4922293655227597 / 70368744177664)) (Num (17 / 100)) (Num (3 / 4))
          (Gain (Num (7 / 10))) 3"
proof -
  have w0: "fl (699 / 10) = Num (2459387609009357 / 35184372088832)"
    by (rule fl_normal [where e = 6 and n = 4918775218018714]) simp_all
  have w2: "fl (6995 / 100) = Num (4922293655227597 / 70368744177664)"
    by (rule fl_normal [where e = 6 and n = 4922293655227597]) simp_all
  have f0: "fl (2459387609009357 / 35184372088832) = Num (2459387609009357 / 35184372088832)"
    by (rule fl_normal [where e = 6 and n = 4918775218018714]) simp_all
  have f1: "fl (4922293655227597 / 35184372088832) = Num (4922293655227597 / 35184372088832)"
    by (rule fl_normal [where e = 7 and n = 4922293655227597]) simp_all
  have f2: "fl (14766880965682791 / 70368744177664) = Num (1845860120710349 / 8796093022208)"
    by (rule fl_normal_tie [where e = 7 and n = 7383440482841395]) simp_all
  have f3: "fl (7385199701445837 / 35184372088832) = Num (7385199701445837 / 35184372088832)"
    by (rule fl_normal [where e = 7 and n = 7385199701445837]) simp_all
  have f4: "fl (22155599104337511 / 35184372088832) = Num (2769449888042189 / 4398046511104)"
    by (rule fl_normal [where e = 9 and n = 5538899776084378]) simp_all
  have f5: "fl (5537580362131047 / 8796093022208) = Num (5537580362131047 / 8796093022208)"
    by (rule fl_normal [where e = 9 and n = 5537580362131047]) simp_all
  have f6: "fl (1319413953331 / 8796093022208) = Num (1319413953331 / 8796093022208)"
    by (rule fl_normal [where e = "- 3" and n = 5404319552843776]) simp_all
  have f7: "fl (1319413953331 / 52776558133248) = Num (7205759403791701 / 288230376151711744)"
    by (rule fl_normal [where e = "- 6" and n = 7205759403791701]) simp_all
  have f8: "fl (50440315826541907 / 288230376151711744)
      = Num (3152519739158869 / 18014398509481984)"
    by (rule fl_normal [where e = "- 3" and n = 6305039478317738]) simp_all
  have f9: "fl (108086391056875515 / 144115188075855872) = Num (6597069766655 / 8796093022208)"
    by (rule fl_normal [where e = "- 1" and n = 6755399441054720]) simp_all
  have sl: "ols_slope [Num (2459387609009357 / 35184372088832), Num 70,
        Num (4922293655227597 / 70368744177664)]
      = Num (7205759403791701 / 288230376151711744)"
    by (simp add: ols_slope_def fsub_def fl_zero fl_one fl_numeral f0 f1 f2 f3 f4 f5 f6 f7)
  have wk: "fmul (Num (7205759403791701 / 288230376151711744)) (Num 7)
      = Num (3152519739158869 / 18014398509481984)"
    by (simp add: f8)
  have mo: "fmul (Num (7205759403791701 / 288230376151711744)) (Num 30)
      = Num (6597069766655 / 8796093022208)"
    by (simp add: f9)
  have t: "toFixed 2 (Num (3152519739158869 / 18014398509481984)) = Num (17 / 100)"
    "toFixed 2 (Num (6597069766655 / 8796093022208)) = Num (3 / 4)"
    "toFixed 1 (Num (6597069766655 / 8796093022208)) = Num (7 / 10)"
    by (simp_all add: floor_eq_iff)
  have wd: "weightData (40 * 86400000) 7
        [\<lparr>doc.oid = 3, doc.userId = 7, doc.date = 39 * 86400000,
          progress.weight = Num (4922293655227597 / 70368744177664)\<rparr>,
         \<lparr>doc.oid = 1, doc.userId = 7, doc.date = 37 * 86400000,
          progress.weight = Num (2459387609009357 / 35184372088832)\<rparr>,
         \<lparr>doc.oid = 2, doc.userId = 7, doc.date = 38 * 86400000, progress.weight = Num 70\<rparr>]
      = [\<lparr>doc.oid = 1, doc.userId = 7, doc.date = 37 * 86400000,
          progress.weight = Num (2459387609009357 / 35184372088832)\<rparr>,
         \<lparr>doc.oid = 2, doc.userId = 7, doc.date = 38 * 86400000, progress.weight = Num 70\<rparr>,
         \<lparr>doc.oid = 3, doc.userId = 7, doc.date = 39 * 86400000,
          progress.weight = Num (4922293655227597 / 70368744177664)\<rparr>]"
    by (simp add: weightData_def msPerDay_def)
  have c: "fless (Math_abs (Num (3152519739158869 / 18014398509481984))) (fl (1 / 10)) = False"
    "fless (Num 0) (Num (3152519739158869 / 18014398509481984)) = True"
    "Math_abs (Num (6597069766655 / 8796093022208)) = Num (6597069766655 / 8796093022208)"
    by (simp_all add: fl_tenth)
  note main = forecast_slope [where now = "40 * 86400000" and user = 7 and Progress =
        "[\<lparr>doc.oid = 3, doc.userId = 7, doc.date = 39 * 86400000,
          progress.weight = Num (4922293655227597 / 70368744177664)\<rparr>,
         \<lparr>doc.oid = 1, doc.userId = 7, doc.date = 37 * 86400000,
          progress.weight = Num (2459387609009357 / 35184372088832)\<rparr>,
         \<lparr>doc.oid = 2, doc.userId = 7, doc.date = 38 * 86400000, progress.weight = Num 70\<rparr>]",
      THEN conjunct1, unfolded Let_def wd, THEN conjunct2, THEN conjunct2, THEN conjunct2,
      THEN conjunct2]
  have "getForecast (40 * 86400000) 7
        [\<lparr>doc.oid = 3, doc.userId = 7, doc.date = 39 * 86400000,
          progress.weight = Num (4922293655227597 / 70368744177664)\<rparr>,
         \<lparr>doc.oid = 1, doc.userId = 7, doc.date = 37 * 86400000,
          progress.weight = Num (2459387609009357 / 35184372088832)\<rparr>,
         \<lparr>doc.oid = 2, doc.userId = 7, doc.date = 38 * 86400000, progress.weight = Num 70\<rparr>]
      = Forecast (Num (4922293655227597 / 70368744177664)) (Num (17 / 100)) (Num (3 / 4))
          (Gain (Num (7 / 10))) 3"
    using main
    by (simp only: list.map progress.simps(1) select_convs sl wk mo t c last.simps list.size
        list.distinct if_False if_True) simp
  with w0 w2 wd show ?thesis by simp
qed

text \<open>
  C6. With fewer than two of the user's samples in the thirty days before the request,
  \<open>getForecast\<close> returns the null prediction with its message, and no number.
\<close>

theorem forecast_insufficient:
  assumes "length (filter (\<lambda>p. doc.userId p = user \<and> now - 30 * msPerDay \<le> doc.date p)
             Progress) < 2"
  shows "getForecast now user Progress
         = NoPrediction ''Need at least 2 weight entries to generate forecast''"
  using assms by (simp add: getForecast_def forecast_of_def weightData_def Let_def)

theorem forecast_insufficient_witness:
  "length (filter (\<lambda>p. doc.userId p = 7 \<and> 40 * 86400000 - 30 * msPerDay \<le> doc.date p)
      [\<lparr>doc.oid = 1, doc.userId = 7, doc.date = 0, progress.weight = Num 70\<rparr>,
       \<lparr>doc.oid = 2, doc.userId = 7, doc.date = 39 * 86400000, progress.weight = Num 72\<rparr>,
       \<lparr>doc.oid = 3, doc.userId = 8, doc.date = 38 * 86400000, progress.weight = Num 90\<rparr>]) < 2
   \<and> getForecast (40 * 86400000) 7
       [\<lparr>doc.oid = 1, doc.userId = 7, doc.date = 0, progress.weight = Num 70\<rparr>,
        \<lparr>doc.oid = 2, doc.userId = 7, doc.date = 39 * 86400000, progress.weight = Num 72\<rparr>,
        \<lparr>doc.oid = 3, doc.userId = 8, doc.date = 38 * 86400000, progress.weight = Num 90\<rparr>]
     = NoPrediction ''Need at least 2 weight entries to generate forecast''"
proof -
  have h: "length (filter (\<lambda>p. doc.userId p = 7 \<and> 40 * 86400000 - 30 * msPerDay \<le> doc.date p)
      [\<lparr>doc.oid = 1, doc.userId = 7, doc.date = 0, progress.weight = Num 70\<rparr>,
       \<lparr>doc.oid = 2, doc.userId = 7, doc.date = 39 * 86400000, progress.weight = Num 72\<rparr>,
       \<lparr>doc.oid = 3, doc.userId = 8, doc.date = 38 * 86400000, progress.weight = Num 90\<rparr>]) < 2"
    by (simp add: msPerDay_def)
  from h forecast_insufficient [OF h] show ?thesis by (rule conjI)
qed

section \<open>Properties of \<open>addProgress\<close>\<close>






lemma distinct_map_remove1:
  "distinct (map f xs) \<Longrightarrow> distinct (map f (remove1 x xs))"
proof (induction xs)
  case Nil
  then show ?case by simp
next
  case (Cons y ys)
  have "set (remove1 x ys) \<subseteq> set ys" by (rule set_remove1_subset)
  with Cons show ?case by auto
qed

lemma deleteProgress_one_per_day:
  "one_per_day tz Progress \<Longrightarrow> one_per_day tz (snd (deleteProgress i user Progress))"
  by (auto simp: deleteProgress_def findByIdAndDelete_def one_per_day_def
      intro: distinct_map_remove1 split: option.splits)

text \<open>
  C7, as stated, at a weight of 10 kilograms on a day that has an entry: validation
  runs before the \<open>pre('save')\<close> hook, so the request is refused with the validation
  error of the weight, not with the duplicate-entry error.
\<close>

theorem addProgress_duplicate_counterexample:
  "localDay 0 (doc.date \<lparr>doc.oid = 1, doc.userId = 7, doc.date = 3 * 86400000 + 100,
                          progress.weight = Num 70\<rparr>)
     = localDay 0 (3 * 86400000 + 50000)
   \<and> addProgress 0 (5 * 86400000) 2 7
        \<lparr>progress_body.weight = Some (Num 10),
         progress_body.date = Some (3 * 86400000 + 50000)\<rparr>
        [\<lparr>doc.oid = 1, doc.userId = 7, doc.date = 3 * 86400000 + 100,
          progress.weight = Num 70\<rparr>]
      = ((500, Caught (ValidationError [''Weight must be at least 20 kg''])),
         [\<lparr>doc.oid = 1, doc.userId = 7, doc.date = 3 * 86400000 + 100,
           progress.weight = Num 70\<rparr>])
   \<and> Caught (ValidationError [''Weight must be at least 20 kg''])
       \<noteq> (Caught (DuplicateEntryError ''Progress entry already exists for this date'')
            :: progress body)"
  by (simp add: addProgress_def Progress_create_def progress_validation_def or_now_def
      valid_date_def localDay_def msPerDay_def)



section \<open>Ownership\<close>

text \<open>
  C8. When the record of the request exists and its owner is not the caller, each of the
  three delete controllers and the update controller answers 401 with
  \<open>User not authorized\<close> and leaves its collection as it was, whereas a missing record
  is answered with 400 (404 for a nutrition entry).
\<close>

theorem ownership_enforced:
  "(\<forall>w. findById i Workouts = Some w \<and> doc.userId w \<noteq> u \<longrightarrow>
        deleteWorkout i (Some u) Workouts = ((401, Message ''User not authorized''), Workouts)
        \<and> updateWorkout i (Some u) b Progress Workouts
            = ((401, Message ''User not authorized''), Workouts))
   \<and> (\<forall>n. findById i Nutrition = Some n \<and> doc.userId n \<noteq> u \<longrightarrow>
        deleteNutrition i (Some u) Nutrition
          = ((401, Message ''User not authorized''), Nutrition))
   \<and> (\<forall>p. findById i Progress = Some p \<and> doc.userId p \<noteq> u \<longrightarrow>
        deleteProgress i (Some u) Progress
          = ((401, Message ''User not authorized''), Progress))
   \<and> (findById i Workouts = None \<longrightarrow>
        fst (fst (deleteWorkout i (Some u) Workouts)) = 400
        \<and> fst (fst (updateWorkout i (Some u) b Progress Workouts)) = 400)
   \<and> (findById i Nutrition = None \<longrightarrow> fst (fst (deleteNutrition i (Some u) Nutrition)) = 404)
   \<and> (findById i Progress = None \<longrightarrow> fst (fst (deleteProgress i (Some u) Progress)) = 400)"
  by (simp add: deleteWorkout_def updateWorkout_def deleteNutrition_def deleteProgress_def)

theorem ownership_enforced_witness:
  "findById 1 [\<lparr>doc.oid = 1, doc.userId = 7, doc.date = 0, workout.type = ''running'',
                 workout.duration = Num 30, workout.weight = Some (Num 70),
                 workout.calories = Some (Num 343)\<rparr>]
     = Some \<lparr>doc.oid = 1, doc.userId = 7, doc.date = 0, workout.type = ''running'',
              workout.duration = Num 30, workout.weight = Some (Num 70), workout.calories = Some (Num 343)\<rparr>
   \<and> deleteWorkout 1 (Some 8)
        [\<lparr>doc.oid = 1, doc.userId = 7, doc.date = 0, workout.type = ''running'',
          workout.duration = Num 30, workout.weight = Some (Num 70), workout.calories = Some (Num 343)\<rparr>]
      = ((401, Message ''User not authorized''),
         [\<lparr>doc.oid = 1, doc.userId = 7, doc.date = 0, workout.type = ''running'',
           workout.duration = Num 30, workout.weight = Some (Num 70), workout.calories = Some (Num 343)\<rparr>])
   \<and> updateWorkout 1 (Some 8)
        \<lparr>workout_body.type = None, workout_body.duration = Some (Num 45),
         workout_body.weight = None, workout_body.calories = None\<rparr>
        [\<lparr>doc.oid = 1, doc.userId = 7, doc.date = 0, progress.weight = Num 70\<rparr>]
        [\<lparr>doc.oid = 1, doc.userId = 7, doc.date = 0, workout.type = ''running'',
          workout.duration = Num 30, workout.weight = Some (Num 70), workout.calories = Some (Num 343)\<rparr>]
      = ((401, Message ''User not authorized''),
         [\<lparr>doc.oid = 1, doc.userId = 7, doc.date = 0, workout.type = ''running'',
           workout.duration = Num 30, workout.weight = Some (Num 70), workout.calories = Some (Num 343)\<rparr>])
   \<and> deleteProgress 1 (Some 8)
        [\<lparr>doc.oid = 1, doc.userId = 7, doc.date = 0, progress.weight = Num 70\<rparr>]
      = ((401, Message ''User not authorized''),
         [\<lparr>doc.oid = 1, doc.userId = 7, doc.date = 0, progress.weight = Num 70\<rparr>])
   \<and> fst (fst (deleteProgress 2 (Some 8)
        [\<lparr>doc.oid = 1, doc.userId = 7, doc.date = 0, progress.weight = Num 70\<rparr>])) = 400"
  using ownership_enforced [where i = 1 and u = 8
      and Workouts = "[\<lparr>doc.oid = 1, doc.userId = 7, doc.date = 0, workout.type = ''running'',
         workout.duration = Num 30, workout.weight = Some (Num 70), workout.calories = Some (Num 343)\<rparr>]"
      and b = "\<lparr>workout_body.type = None, workout_body.duration = Some (Num 45),
           workout_body.weight = None, workout_body.calories = None\<rparr>"
      and Progress = "[\<lparr>doc.oid = 1, doc.userId = 7, doc.date = 0, progress.weight = Num 70\<rparr>]"
      and Nutrition = "[]"]
    ownership_enforced [where i = 2 and u = 8 and Workouts = "[]"
      and Progress = "[\<lparr>doc.oid = 1, doc.userId = 7, doc.date = 0, progress.weight = Num 70\<rparr>]"
      and Nutrition = "[]"]
  by (simp add: findById_def)

section \<open>Properties of \<open>addNutrition\<close>\<close>

lemma trim_ends:
  "trim s = [] \<or> (\<not> whitespace (hd (trim s)) \<and> \<not> whitespace (last (trim s)))"
proof (cases "trim s = []")
  case True
  then show ?thesis by simp
next
  case False
  let ?a = "dropWhile whitespace s"
  let ?b = "dropWhile whitespace (rev ?a)"
  have t: "trim s = rev ?b" by (simp add: trim_def)
  with False have b: "?b \<noteq> []" by simp
  then have hb: "\<not> whitespace (hd ?b)"
    by (rule hd_dropWhile)
  have "rev ?a = takeWhile whitespace (rev ?a) @ ?b" by simp
  then have "?a = rev ?b @ rev (takeWhile whitespace (rev ?a))"
    by (metis rev_append rev_rev_ident)
  then have "hd ?a = hd (rev ?b)"
    using b by (metis hd_append2 rev_is_Nil_conv)
  moreover have "?a \<noteq> []" using b by (metis dropWhile.simps(1) rev.simps(1))
  then have "\<not> whitespace (hd ?a)" by (rule hd_dropWhile)
  ultimately have "\<not> whitespace (hd (trim s))" by (simp add: t)
  moreover have "\<not> whitespace (last (trim s))"
    using hb b by (simp add: t last_rev)
  ultimately show ?thesis by simp
qed

lemma trim_trim: "trim (trim s) = trim s"
proof (cases "trim s = []")
  case True
  have "trim [] = []" by (simp add: trim_def)
  then show ?thesis by (simp only: True)
next
  case False
  with trim_ends [of s] have h: "\<not> whitespace (hd (trim s))" and l: "\<not> whitespace (last (trim s))"
    by simp_all
  from h False have 1: "dropWhile whitespace (trim s) = trim s"
    by (simp add: dropWhile_eq_self_iff)
  from l False have 2: "dropWhile whitespace (rev (trim s)) = rev (trim s)"
    by (simp add: dropWhile_eq_self_iff hd_rev)
  show ?thesis
    unfolding trim_def [of "trim s"] 1 2 by simp
qed

lemma validated_bad: "negative v \<or> isNaN v \<Longrightarrow> validated v = Num 0"
  by (cases "ToNumber v") (auto simp: validated_def negative_def isNaN_def Math_max_def)

lemma validated_zero: "validated (JNumber (Num 0)) = Num 0"
  by (simp add: validated_def isNaN_def Math_max_def)

lemma validated_nonneg: "\<not> fless (validated v) (Num 0)"
  by (cases "ToNumber v") (auto simp: validated_def isNaN_def Math_max_def)

lemma fle_not_fless: "fle a b \<Longrightarrow> \<not> fless b a"
  by (cases a; cases b) auto

lemma addNutrition_created:
  assumes "nutrition_body.food b = Some f" and "trim f \<noteq> []" and "length (trim f) \<le> 200"
    and "nutrition_body.calories b = JNumber (Num c)" and "0 < c" and "c \<le> 10000"
    and "fle (validated (nutrition_body.protein b)) (Num 1000)"
    and "fle (validated (nutrition_body.carbs b)) (Num 1000)"
    and "fle (validated (nutrition_body.fat b)) (Num 1000)"
    and "valid_date (or_now (nutrition_body.date b) now)"
  shows "addNutrition now newId user b Nutrition
     = (let n = \<lparr>doc.oid = newId, doc.userId = user,
                 doc.date = or_now (nutrition_body.date b) now,
                 nutrition.food = trim f, nutrition.calories = Num c,
                 nutrition.protein = validated (nutrition_body.protein b),
                 nutrition.carbs = validated (nutrition_body.carbs b),
                 nutrition.fat = validated (nutrition_body.fat b)\<rparr>
        in ((201, Json n), Nutrition @ [n]))"
proof -
  from assms(2) have "f \<noteq> []" by (auto simp: trim_def)
  with assms show ?thesis
    by (simp add: addNutrition_def Nutrition_create_def nutrition_validation_def Let_def
        isNaN_def negative_def trim_trim not_less validated_nonneg fle_not_fless)
qed

lemma addNutrition_bad_calories:
  assumes "nutrition_body.calories b \<in> {JUndefined, JNull} \<or> negative (nutrition_body.calories b)"
  shows "fst (fst (addNutrition now newId user b Nutrition)) = 400"
    and "snd (addNutrition now newId user b Nutrition) = Nutrition"
    and "nutrition_body.food b = Some f \<Longrightarrow> trim f \<noteq> [] \<Longrightarrow>
           addNutrition now newId user b Nutrition
             = ((400, Message ''Valid calories value is required''), Nutrition)"
proof -
  from assms have bad: "falsy (nutrition_body.calories b) \<or> isNaN (nutrition_body.calories b)
      \<or> negative (nutrition_body.calories b)"
    by auto
  then show "fst (fst (addNutrition now newId user b Nutrition)) = 400"
    and "snd (addNutrition now newId user b Nutrition) = Nutrition"
    by (auto simp: addNutrition_def split: option.splits)
  show "addNutrition now newId user b Nutrition
             = ((400, Message ''Valid calories value is required''), Nutrition)"
    if "nutrition_body.food b = Some f" "trim f \<noteq> []"
  proof -
    from that(2) have "f \<noteq> []" by (auto simp: trim_def)
    with that bad show ?thesis
      by (auto simp: addNutrition_def)
  qed
qed

text \<open>
  C10. A macro that is negative or not a number is replaced by 0: the response is that
  of the same request with the macro set to 0, and a request with a food name, calories
  above 0 and up to 10000, macros of at most 1000 after this replacement and a valid
  date (its \<open>date\<close>, or the clock when that is absent or zero) is stored and answered
  with 201. A request whose calories are missing or negative is answered with 400 and
  nothing is stored.
\<close>

theorem addNutrition_macros:
  "(\<forall>v. negative v \<or> isNaN v \<longrightarrow> validated v = Num 0)
   \<and> (negative (nutrition_body.protein b) \<or> isNaN (nutrition_body.protein b) \<longrightarrow>
        addNutrition now newId user b Nutrition
          = addNutrition now newId user (b\<lparr>nutrition_body.protein := JNumber (Num 0)\<rparr>)
              Nutrition)
   \<and> (negative (nutrition_body.carbs b) \<or> isNaN (nutrition_body.carbs b) \<longrightarrow>
        addNutrition now newId user b Nutrition
          = addNutrition now newId user (b\<lparr>nutrition_body.carbs := JNumber (Num 0)\<rparr>)
              Nutrition)
   \<and> (negative (nutrition_body.fat b) \<or> isNaN (nutrition_body.fat b) \<longrightarrow>
        addNutrition now newId user b Nutrition
          = addNutrition now newId user (b\<lparr>nutrition_body.fat := JNumber (Num 0)\<rparr>)
              Nutrition)
   \<and> (\<forall>f c. nutrition_body.food b = Some f \<and> trim f \<noteq> [] \<and> length (trim f) \<le> 200
          \<and> nutrition_body.calories b = JNumber (Num c) \<and> 0 < c \<and> c \<le> 10000
          \<and> fle (validated (nutrition_body.protein b)) (Num 1000)
          \<and> fle (validated (nutrition_body.carbs b)) (Num 1000)
          \<and> fle (validated (nutrition_body.fat b)) (Num 1000)
          \<and> valid_date (or_now (nutrition_body.date b) now) \<longrightarrow>
        addNutrition now newId user b Nutrition
          = (let n = \<lparr>doc.oid = newId, doc.userId = user,
                       doc.date = or_now (nutrition_body.date b) now,
                       nutrition.food = trim f, nutrition.calories = Num c,
                       nutrition.protein = validated (nutrition_body.protein b),
                       nutrition.carbs = validated (nutrition_body.carbs b),
                       nutrition.fat = validated (nutrition_body.fat b)\<rparr>
             in ((201, Json n), Nutrition @ [n])))
   \<and> (nutrition_body.calories b \<in> {JUndefined, JNull} \<or> negative (nutrition_body.calories b)
        \<longrightarrow> fst (fst (addNutrition now newId user b Nutrition)) = 400
            \<and> snd (addNutrition now newId user b Nutrition) = Nutrition
            \<and> (\<forall>f. nutrition_body.food b = Some f \<and> trim f \<noteq> [] \<longrightarrow>
                  addNutrition now newId user b Nutrition
                    = ((400, Message ''Valid calories value is required''), Nutrition)))"
proof -
  have 1: "\<forall>v. negative v \<or> isNaN v \<longrightarrow> validated v = Num 0"
    using validated_bad by blast
  have 2: "negative (nutrition_body.protein b) \<or> isNaN (nutrition_body.protein b) \<longrightarrow>
        addNutrition now newId user b Nutrition
          = addNutrition now newId user (b\<lparr>nutrition_body.protein := JNumber (Num 0)\<rparr>)
              Nutrition"
  proof
    assume "negative (nutrition_body.protein b) \<or> isNaN (nutrition_body.protein b)"
    then have "validated (nutrition_body.protein b) = Num 0" by (rule validated_bad)
    then show "addNutrition now newId user b Nutrition
          = addNutrition now newId user (b\<lparr>nutrition_body.protein := JNumber (Num 0)\<rparr>)
              Nutrition"
      by (simp add: addNutrition_def validated_zero Let_def split: option.splits)
  qed
  have 3: "negative (nutrition_body.carbs b) \<or> isNaN (nutrition_body.carbs b) \<longrightarrow>
        addNutrition now newId user b Nutrition
          = addNutrition now newId user (b\<lparr>nutrition_body.carbs := JNumber (Num 0)\<rparr>)
              Nutrition"
  proof
    assume "negative (nutrition_body.carbs b) \<or> isNaN (nutrition_body.carbs b)"
    then have "validated (nutrition_body.carbs b) = Num 0" by (rule validated_bad)
    then show "addNutrition now newId user b Nutrition
          = addNutrition now newId user (b\<lparr>nutrition_body.carbs := JNumber (Num 0)\<rparr>)
              Nutrition"
      by (simp add: addNutrition_def validated_zero Let_def split: option.splits)
  qed
  have 4: "negative (nutrition_body.fat b) \<or> isNaN (nutrition_body.fat b) \<longrightarrow>
        addNutrition now newId user b Nutrition
          = addNutrition now newId user (b\<lparr>nutrition_body.fat := JNumber (Num 0)\<rparr>)
              Nutrition"
  proof
    assume "negative (nutrition_body.fat b) \<or> isNaN (nutrition_body.fat b)"
    then have "validated (nutrition_body.fat b) = Num 0" by (rule validated_bad)
    then show "addNutrition now newId user b Nutrition
          = addNutrition now newId user (b\<lparr>nutrition_body.fat := JNumber (Num 0)\<rparr>)
              Nutrition"
      by (simp add: addNutrition_def validated_zero Let_def split: option.splits)
  qed
  have 5: "\<forall>f c. nutrition_body.food b = Some f \<and> trim f \<noteq> [] \<and> length (trim f) \<le> 200
          \<and> nutrition_body.calories b = JNumber (Num c) \<and> 0 < c \<and> c \<le> 10000
          \<and> fle (validated (nutrition_body.protein b)) (Num 1000)
          \<and> fle (validated (nutrition_body.carbs b)) (Num 1000)
          \<and> fle (validated (nutrition_body.fat b)) (Num 1000)
          \<and> valid_date (or_now (nutrition_body.date b) now) \<longrightarrow>
        addNutrition now newId user b Nutrition
          = (let n = \<lparr>doc.oid = newId, doc.userId = user,
                       doc.date = or_now (nutrition_body.date b) now,
                       nutrition.food = trim f, nutrition.calories = Num c,
                       nutrition.protein = validated (nutrition_body.protein b),
                       nutrition.carbs = validated (nutrition_body.carbs b),
                       nutrition.fat = validated (nutrition_body.fat b)\<rparr>
             in ((201, Json n), Nutrition @ [n]))"
    using addNutrition_created [where b = b and now = now and newId = newId and user = user
        and Nutrition = Nutrition]
    by blast
  have 6: "nutrition_body.calories b \<in> {JUndefined, JNull} \<or> negative (nutrition_body.calories b)
        \<longrightarrow> fst (fst (addNutrition now newId user b Nutrition)) = 400
            \<and> snd (addNutrition now newId user b Nutrition) = Nutrition
            \<and> (\<forall>f. nutrition_body.food b = Some f \<and> trim f \<noteq> [] \<longrightarrow>
                  addNutrition now newId user b Nutrition
                    = ((400, Message ''Valid calories value is required''), Nutrition))"
    using addNutrition_bad_calories [where b = b and now = now and newId = newId
        and user = user and Nutrition = Nutrition]
    by blast
  from 1 2 3 4 5 6 show ?thesis by (intro conjI)
qed

theorem addNutrition_macros_witness:
  "negative (JNumber (Num (- 5))) \<and> isNaN (JText NaN)
   \<and> addNutrition 1000 4 7
        \<lparr>nutrition_body.food = Some '' Oats '', nutrition_body.calories = JNumber (Num 380),
         nutrition_body.date = Some 0, nutrition_body.protein = JNumber (Num (- 5)),
         nutrition_body.carbs = JText NaN, nutrition_body.fat = JNumber (Num 7)\<rparr> []
      = ((201, Json \<lparr>doc.oid = 4, doc.userId = 7, doc.date = 1000, nutrition.food = ''Oats'',
                      nutrition.calories = Num 380, nutrition.protein = Num 0,
                      nutrition.carbs = Num 0, nutrition.fat = Num 7\<rparr>),
         [\<lparr>doc.oid = 4, doc.userId = 7, doc.date = 1000, nutrition.food = ''Oats'',
           nutrition.calories = Num 380, nutrition.protein = Num 0, nutrition.carbs = Num 0,
           nutrition.fat = Num 7\<rparr>])
   \<and> addNutrition 1000 4 7
        \<lparr>nutrition_body.food = Some ''Oats'', nutrition_body.calories = JNumber (Num (- 1)),
         nutrition_body.date = None, nutrition_body.protein = JNumber (Num 13),
         nutrition_body.carbs = JNumber (Num 68), nutrition_body.fat = JNumber (Num 7)\<rparr> []
      = ((400, Message ''Valid calories value is required''), [])"
proof -
  have t: "trim '' Oats '' = ''Oats''" "trim ''Oats'' = ''Oats''"
    by (simp_all add: trim_def whitespace_def)
  note created = addNutrition_macros [where now = 1000 and newId = 4 and user = 7
      and Nutrition = "[]"
      and b = "\<lparr>nutrition_body.food = Some '' Oats '',
         nutrition_body.calories = JNumber (Num 380),
         nutrition_body.date = Some 0, nutrition_body.protein = JNumber (Num (- 5)),
         nutrition_body.carbs = JText NaN, nutrition_body.fat = JNumber (Num 7)\<rparr>",
      THEN conjunct2, THEN conjunct2, THEN conjunct2, THEN conjunct2, THEN conjunct1,
      rule_format, of "'' Oats ''" 380]
  note refused = addNutrition_macros [where now = 1000 and newId = 4 and user = 7
      and Nutrition = "[]"
      and b = "\<lparr>nutrition_body.food = Some ''Oats'',
         nutrition_body.calories = JNumber (Num (- 1)),
         nutrition_body.date = None, nutrition_body.protein = JNumber (Num 13),
         nutrition_body.carbs = JNumber (Num 68), nutrition_body.fat = JNumber (Num 7)\<rparr>",
      THEN conjunct2, THEN conjunct2, THEN conjunct2, THEN conjunct2, THEN conjunct2,
      rule_format, THEN conjunct2, THEN conjunct2, rule_format, of "''Oats''"]
  show ?thesis
    using created refused
    by (simp add: t negative_def isNaN_def validated_def Let_def Math_max_def or_now_def
        valid_date_def)
qed

end
